theory Spec2Isabelle
  imports Complex_Main "HOL-Library.Sublist" "HOL-Library.Char_ord" "HOL-Library.List_Lexorder"
begin

section \<open>Python values the scrapers handle\<close>

subsection \<open>Strings\<close>

text \<open>
  A Python \<open>str\<close> is a \<open>string\<close>. \<open>str.strip()\<close> and \<open>str.split()\<close> cut at
  white space; the ASCII white space characters are modelled (space, tab, line feed,
  vertical tab, form feed, carriage return and the four separators 0x1C to 0x1F).
\<close>

definition isspace :: "char \<Rightarrow> bool" where
  "isspace c = (c \<in> set [CHR '' '', CHR 0x09, CHR 0x0A, CHR 0x0B, CHR 0x0C, CHR 0x0D,
                          CHR 0x1C, CHR 0x1D, CHR 0x1E, CHR 0x1F])"

definition str_strip :: "string \<Rightarrow> string" where
  "str_strip s = rev (dropWhile isspace (rev (dropWhile isspace s)))"

text \<open>\<open>s.split()\<close>: the maximal runs of characters that are not white space.\<close>

fun split_ws :: "string \<Rightarrow> string \<Rightarrow> string list" where
  "split_ws cur [] = (if cur = [] then [] else [cur])"
| "split_ws cur (c # cs) =
     (if isspace c then (if cur = [] then split_ws [] cs else cur # split_ws [] cs)
      else split_ws (cur @ [c]) cs)"

definition str_split :: "string \<Rightarrow> string list" where
  "str_split s = split_ws [] s"

text \<open>\<open>sep.join(xs)\<close>.\<close>

fun str_join :: "string \<Rightarrow> string list \<Rightarrow> string" where
  "str_join sep [] = []"
| "str_join sep [x] = x"
| "str_join sep (x # y # ys) = x @ sep @ str_join sep (y # ys)"

text \<open>\<open>s.startswith(p)\<close>, \<open>s.endswith(p)\<close> and \<open>p in s\<close>.\<close>

definition str_startswith :: "string \<Rightarrow> string \<Rightarrow> bool" where
  "str_startswith s p = prefix p s"

definition str_endswith :: "string \<Rightarrow> string \<Rightarrow> bool" where
  "str_endswith s p = suffix p s"

definition str_contains :: "string \<Rightarrow> string \<Rightarrow> bool" where
  "str_contains s p = sublist p s"

text \<open>
  \<open>s.replace(old, new)\<close> for a non-empty \<open>old\<close>: every occurrence, found from the
  left, without overlaps.
\<close>

fun str_replace :: "string \<Rightarrow> string \<Rightarrow> string \<Rightarrow> string" where
  "str_replace old new [] = []"
| "str_replace old new (c # cs) =
     (if old \<noteq> [] \<and> prefix old (c # cs)
      then new @ str_replace old new (drop (length old) (c # cs))
      else c # str_replace old new cs)"

text \<open>\<open>s.lower()\<close>, on the ASCII letters.\<close>

definition lower_char :: "char \<Rightarrow> char" where
  "lower_char c = (if CHR ''A'' \<le> c \<and> c \<le> CHR ''Z'' then char_of (of_char c + (32::nat)) else c)"

definition str_lower :: "string \<Rightarrow> string" where
  "str_lower s = map lower_char s"

text \<open>\<open>str(n)\<close> of a natural number, as an f-string prints a page number.\<close>

fun str_nat :: "nat \<Rightarrow> string" where
  "str_nat n =
     (if n < 10 then [''0123456789'' ! n]
      else str_nat (n div 10) @ [''0123456789'' ! (n mod 10)])"

declare str_nat.simps [simp del]

subsection \<open>Exceptions\<close>

text \<open>
  An exception is its class, as far as the \<open>except\<close> clauses of the program tell
  classes apart, and its message. \<open>OtherException\<close> is every class that only
  \<open>except Exception\<close> catches.
\<close>

datatype exc_class = RequestError | ValueError | TypeError | AttributeError | KeyError
  | IndexError | OtherException

datatype exc = Exc (cls: exc_class) (message: string)

definition raise :: "exc_class \<Rightarrow> exc + 'a" where
  "raise k = Inl (Exc k [])"

subsection \<open>JSON values\<close>

text \<open>
  What \<open>json.loads\<close> and \<open>Response.json()\<close> return. A dictionary is the list of its
  items, read with \<open>map_of\<close>.
\<close>

datatype json = JNull | JBool bool | JInt int | JFloat real | JStr string
  | JList "json list" | JDict "(string \<times> json) list"

text \<open>Truth value testing, as \<open>if x\<close>, \<open>not x\<close>, \<open>x or y\<close> do it.\<close>

fun truthy :: "json \<Rightarrow> bool" where
  "truthy JNull = False"
| "truthy (JBool b) = b"
| "truthy (JInt i) = (i \<noteq> 0)"
| "truthy (JFloat r) = (r \<noteq> 0)"
| "truthy (JStr s) = (s \<noteq> [])"
| "truthy (JList xs) = (xs \<noteq> [])"
| "truthy (JDict kvs) = (kvs \<noteq> [])"

text \<open>\<open>d.get(k)\<close> and \<open>d.get(k, dflt)\<close>: only a dictionary has the method.\<close>

fun py_get :: "json \<Rightarrow> string \<Rightarrow> json \<Rightarrow> exc + json" where
  "py_get (JDict kvs) k dflt = Inr (case map_of kvs k of Some v \<Rightarrow> v | None \<Rightarrow> dflt)"
| "py_get _ k dflt = raise AttributeError"

text \<open>\<open>x[0]\<close>.\<close>

fun py_getitem0 :: "json \<Rightarrow> exc + json" where
  "py_getitem0 (JList (x # xs)) = Inr x"
| "py_getitem0 (JList []) = raise IndexError"
| "py_getitem0 (JStr (c # cs)) = Inr (JStr [c])"
| "py_getitem0 (JStr []) = raise IndexError"
| "py_getitem0 (JDict kvs) = raise KeyError"
| "py_getitem0 _ = raise TypeError"

text \<open>\<open>for x in v\<close>: the values the loop runs over.\<close>

fun py_iter :: "json \<Rightarrow> exc + json list" where
  "py_iter (JList xs) = Inr xs"
| "py_iter (JDict kvs) = Inr (map (\<lambda>kv. JStr (fst kv)) kvs)"
| "py_iter (JStr s) = Inr (map (\<lambda>c. JStr [c]) s)"
| "py_iter _ = raise TypeError"

text \<open>\<open>(x or "").strip()\<close>: a string method, so any other true value raises.\<close>

fun or_empty_strip :: "json \<Rightarrow> exc + string" where
  "or_empty_strip (JStr s) = Inr (str_strip s)"
| "or_empty_strip v = (if truthy v then raise AttributeError else Inr [])"

section \<open>The library and the network\<close>

text \<open>
  The functions of \<open>urllib.parse\<close>, \<open>json\<close>, \<open>re\<close> and \<open>datetime\<close> that the program
  calls are parameters: one record holds them, and every theorem holds for every such
  record. \<open>py_float\<close> is \<open>float(v)\<close> (an exception of class \<open>ValueError\<close> for a string
  that is no number), \<open>py_str\<close> is \<open>str(v)\<close> as an f-string applies it to a value that
  is not a string, the two \<open>findall\<close> fields are the methods of the compiled
  patterns \<open>EMAIL_RE\<close> and \<open>PHONE_RE\<close>, and \<open>is_http_url\<close> is the validation pydantic
  runs on a field of type \<open>AnyHttpUrl\<close>.
\<close>

record ParseResult =
  scheme :: string
  netloc :: string

record pylib =
  urljoin :: "string \<Rightarrow> string \<Rightarrow> string"
  urlparse :: "string \<Rightarrow> ParseResult"
  quote_plus :: "string \<Rightarrow> string"
  json_loads :: "string \<Rightarrow> exc + json"
  py_float :: "json \<Rightarrow> exc + real"
  py_str :: "json \<Rightarrow> string"
  EMAIL_RE_findall :: "string \<Rightarrow> string list"
  PHONE_RE_findall :: "string \<Rightarrow> string list"
  utcnow_isoformat :: string
  is_http_url :: "string \<Rightarrow> bool"

subsection \<open>Parsed documents\<close>

text \<open>
  A tag as BeautifulSoup presents it: its name, its attributes, its \<open>.text\<close>, the
  result of \<open>get_text(" ", strip=True)\<close> on it, and the tags below it in document
  order. The document is its root tag. Parsing and text extraction are the library's
  work; the searches the program runs over a document are defined here.
\<close>

datatype element = Element (tag_name: string) (attrs: "(string \<times> string) list")
  (text_of: string) (get_text: string) (descendants: "element list")

text \<open>\<open>e.get(k)\<close>, \<open>e.find_all(nm)\<close> and \<open>e.find(nm)\<close>.\<close>

definition get_attr :: "element \<Rightarrow> string \<Rightarrow> string option" where
  "get_attr e k = map_of (attrs e) k"

definition find_all :: "element \<Rightarrow> string \<Rightarrow> element list" where
  "find_all e nm = filter (\<lambda>d. tag_name d = nm) (descendants e)"

definition find_first :: "element \<Rightarrow> string \<Rightarrow> element option" where
  "find_first e nm = (case find_all e nm of [] \<Rightarrow> None | d # ds \<Rightarrow> Some d)"

text \<open>
  The CSS selectors the program uses have the form \<open>tag[attr="v"]\<close>, \<open>tag[attr^="v"]\<close>
  or \<open>tag[attr*="v"]\<close>, alone or in a comma-separated group.
\<close>

datatype attr_test = AttrEquals | AttrPrefix | AttrContains

datatype selector = Sel string string attr_test string

fun matches :: "selector \<Rightarrow> element \<Rightarrow> bool" where
  "matches (Sel tg attr tst v) e =
     (tag_name e = tg \<and>
      (case get_attr e attr of
         None \<Rightarrow> False
       | Some x \<Rightarrow> (case tst of AttrEquals \<Rightarrow> x = v
                    | AttrPrefix \<Rightarrow> str_startswith x v
                    | AttrContains \<Rightarrow> str_contains x v)))"

definition select :: "element \<Rightarrow> selector list \<Rightarrow> element list" where
  "select doc sels = filter (\<lambda>e. list_ex (\<lambda>s. matches s e) sels) (descendants doc)"

text \<open>\<open>[a["href"] for a in soup.find_all("a", href=True)]\<close>.\<close>

definition hrefs_of :: "element \<Rightarrow> string list" where
  "hrefs_of doc =
     List.map_filter (\<lambda>a. if tag_name a = ''a'' then get_attr a ''href'' else None) (descendants doc)"

subsection \<open>The HTTP client\<close>

text \<open>
  A response is its status code and its body, read as a document
  (\<open>BeautifulSoup(r.text, "lxml")\<close>) and as JSON (\<open>r.json()\<close>, which may raise).
  \<open>client.get(url)\<close> returns a response or raises; within one request of the service
  the answer is taken to depend on the URL alone.
\<close>

record Response =
  status_code :: nat
  parsed_html :: element
  parsed_json :: "exc + json"

datatype reply = Returns Response | Raises exc

type_synonym Client = "string \<Rightarrow> reply"

section \<open>Schemas\<close>

text \<open>
  The pydantic models of the items. A price is a Python float; the program only
  stores what \<open>float\<close> returns, and the model takes it as a real number.
\<close>

record Product =
  title :: string
  url :: "string option"
  price :: "real option"
  image_url :: "string option"

record Policy =
  policy_type :: string
  policy_url :: "string option"
  policy_text_excerpt :: "string option"

record FAQItem =
  question :: string
  answer :: string
  faq_url :: "string option"

datatype contact_value = StrList "string list" | Str string

section \<open>Low-level HTTP utilities\<close>

definition SOCIAL_MAP :: "(string \<times> string) list" where
  "SOCIAL_MAP =
     [(''instagram.com'', ''instagram''), (''facebook.com'', ''facebook''),
      (''x.com'', ''twitter''), (''twitter.com'', ''twitter''), (''tiktok.com'', ''tiktok''),
      (''youtube.com'', ''youtube''), (''youtu.be'', ''youtube''),
      (''pinterest.com'', ''pinterest''), (''linkedin.com'', ''linkedin'')]"

definition text_excerpt :: "string \<Rightarrow> nat \<Rightarrow> string" where
  "text_excerpt s n = take n (str_join '' '' (str_split s))"

definition classify_social :: "pylib \<Rightarrow> string \<Rightarrow> string option" where
  "classify_social L href =
     (let host = str_lower (netloc (urlparse L href))
      in map_option snd (List.find (\<lambda>dk. str_contains host (fst dk)) SOCIAL_MAP))"

definition absolutize :: "pylib \<Rightarrow> string \<Rightarrow> string option \<Rightarrow> string option" where
  "absolutize L base href =
     (case href of None \<Rightarrow> None
      | Some h \<Rightarrow> if h = [] then None else Some (urljoin L base h))"

definition normalize_root :: "pylib \<Rightarrow> string \<Rightarrow> string" where
  "normalize_root L u = (let p = urlparse L u in scheme p @ ''://'' @ netloc p @ ''/'')"

text \<open>
  \<open>fetch_html\<close> catches \<open>httpx.RequestError\<close> only: any other exception of the client
  goes on to the caller.
\<close>

definition fetch_html :: "pylib \<Rightarrow> Client \<Rightarrow> string \<Rightarrow> string \<Rightarrow> exc + element option" where
  "fetch_html L client base path =
     (case client (urljoin L base path) of
        Returns r \<Rightarrow> if status_code r = 200 then Inr (Some (parsed_html r)) else Inr None
      | Raises e \<Rightarrow> if cls e = RequestError then Inr None else Inl e)"

definition fetch_json_ok :: "Client \<Rightarrow> string \<Rightarrow> json option" where
  "fetch_json_ok client u =
     (case client u of
        Returns r \<Rightarrow>
          if status_code r = 200
          then (case parsed_json r of Inr d \<Rightarrow> Some d | Inl e \<Rightarrow> None)
          else None
      | Raises e \<Rightarrow> None)"

section \<open>Parsers and page scrapers\<close>

subsection \<open>Brand name\<close>

text \<open>
  \<open>soup.find("meta", property="og:site_name")\<close> and the two lines that read its
  \<open>content\<close>.
\<close>

definition og_site_name :: "element \<Rightarrow> string option" where
  "og_site_name doc =
     (case List.find (\<lambda>e. tag_name e = ''meta'' \<and> get_attr e ''property'' = Some ''og:site_name'')
             (descendants doc) of
        None \<Rightarrow> None
      | Some og \<Rightarrow>
          (case get_attr og ''content'' of
             None \<Rightarrow> None
           | Some c \<Rightarrow> if c = [] then None else Some (str_strip c)))"

definition scrape_brand_name :: "element option \<Rightarrow> string option" where
  "scrape_brand_name soup =
     (case soup of
        None \<Rightarrow> None
      | Some doc \<Rightarrow>
          (case find_first doc ''title'' of
             Some t \<Rightarrow>
               if text_of t \<noteq> []
               then Some (str_strip (takeWhile (\<lambda>c. c \<noteq> CHR ''|'') (str_strip (text_of t))))
               else og_site_name doc
           | None \<Rightarrow> og_site_name doc))"

subsection \<open>Hero products\<close>

text \<open>
  The title of an anchor, as the loop body computes it:
  \<open>(a.get("title") or a.get_text(" ", strip=True) or "").strip()\<close>, and when that is
  empty the stripped \<open>alt\<close> of the first image below the anchor, if it has one.
\<close>

definition anchor_title :: "element \<Rightarrow> string" where
  "anchor_title a =
     (let t = str_strip (case get_attr a ''title'' of
                           None \<Rightarrow> get_text a
                         | Some v \<Rightarrow> if v \<noteq> [] then v else get_text a)
      in if t \<noteq> [] then t
         else (case find_first a ''img'' of
                 None \<Rightarrow> t
               | Some img \<Rightarrow>
                   (case get_attr img ''alt'' of
                      None \<Rightarrow> t
                    | Some alt \<Rightarrow> if alt \<noteq> [] then str_strip alt else t)))"

text \<open>
  The \<open>for\<close> loop of \<open>scrape_hero_products\<close> over the selected anchors, with its two
  variables \<open>seen\<close> and \<open>out\<close>. A \<open>continue\<close> goes to the next anchor; the loop
  breaks once \<open>out\<close> holds 8 products.
\<close>

fun hero_loop :: "pylib \<Rightarrow> string \<Rightarrow> element list \<Rightarrow> string set \<Rightarrow> Product list \<Rightarrow> Product list" where
  "hero_loop L base [] seen out = out"
| "hero_loop L base (a # rest) seen out =
     (case absolutize L base (get_attr a ''href'') of
        None \<Rightarrow> hero_loop L base rest seen out
      | Some href \<Rightarrow>
          if href = [] \<or> href \<in> seen then hero_loop L base rest seen out
          else
            (let t = anchor_title a;
                 out' = (if t \<noteq> [] then out @ [\<lparr>title = t, url = Some href, price = None, image_url = None\<rparr>]
                         else out);
                 seen' = (if t \<noteq> [] then insert href seen else seen)
             in if length out' \<ge> 8 then out' else hero_loop L base rest seen' out'))"

definition scrape_hero_products :: "pylib \<Rightarrow> string \<Rightarrow> element option \<Rightarrow> Product list" where
  "scrape_hero_products L base soup =
     (case soup of
        None \<Rightarrow> []
      | Some doc \<Rightarrow> hero_loop L base (select doc [Sel ''a'' ''href'' AttrContains ''/products/'']) {} [])"

subsection \<open>Catalog\<close>

text \<open>The value an f-string prints for \<open>{handle}\<close>.\<close>

definition format_value :: "pylib \<Rightarrow> json \<Rightarrow> string" where
  "format_value L v = (case v of JStr s \<Rightarrow> s | _ \<Rightarrow> py_str L v)"

text \<open>
  The body of the \<open>for it in items\<close> loop, statement by statement: the URL from the
  handle, the image from \<open>it["image"]["src"]\<close>, the price from the first variant, and
  the title. Each may raise; only the \<open>ValueError\<close> of \<open>float\<close> is caught here.
\<close>

definition item_url :: "pylib \<Rightarrow> string \<Rightarrow> json \<Rightarrow> exc + string option" where
  "item_url L base it =
     (case py_get it ''handle'' JNull of
        Inl e \<Rightarrow> Inl e
      | Inr handle \<Rightarrow>
          Inr (if truthy handle
               then absolutize L base (Some (''/products/'' @ format_value L handle))
               else None))"

definition item_image :: "pylib \<Rightarrow> string \<Rightarrow> json \<Rightarrow> exc + string option" where
  "item_image L base it =
     (case py_get it ''image'' JNull of
        Inl e \<Rightarrow> Inl e
      | Inr img \<Rightarrow>
          if \<not> truthy img then Inr None
          else (case py_get img ''src'' JNull of
                  Inl e \<Rightarrow> Inl e
                | Inr src \<Rightarrow>
                    if \<not> truthy src then Inr None
                    else (case src of
                            JStr s \<Rightarrow> Inr (absolutize L base (Some s))
                          | _ \<Rightarrow> raise TypeError)))"

definition item_price :: "pylib \<Rightarrow> json \<Rightarrow> exc + real option" where
  "item_price L it =
     (case py_get it ''variants'' JNull of
        Inl e \<Rightarrow> Inl e
      | Inr variants \<Rightarrow>
          if \<not> truthy variants then Inr None
          else (case py_getitem0 variants of
                  Inl e \<Rightarrow> Inl e
                | Inr v0 \<Rightarrow>
                    (case py_get v0 ''price'' JNull of
                       Inl e \<Rightarrow> Inl e
                     | Inr p \<Rightarrow>
                         if \<not> truthy p then Inr None
                         else (case py_float L p of
                                 Inr x \<Rightarrow> Inr (Some x)
                               | Inl e \<Rightarrow> if cls e = ValueError then Inr None else Inl e))))"

definition item_title :: "json \<Rightarrow> exc + string" where
  "item_title it =
     (case py_get it ''title'' JNull of Inl e \<Rightarrow> Inl e | Inr t \<Rightarrow> or_empty_strip t)"

definition catalog_item :: "pylib \<Rightarrow> string \<Rightarrow> json \<Rightarrow> exc + Product" where
  "catalog_item L base it =
     (case item_url L base it of
        Inl e \<Rightarrow> Inl e
      | Inr u \<Rightarrow>
          (case item_image L base it of
             Inl e \<Rightarrow> Inl e
           | Inr img \<Rightarrow>
               (case item_price L it of
                  Inl e \<Rightarrow> Inl e
                | Inr pr \<Rightarrow>
                    (case item_title it of
                       Inl e \<Rightarrow> Inl e
                     | Inr t \<Rightarrow> Inr \<lparr>title = t, url = u, price = pr, image_url = img\<rparr>))))"

text \<open>
  The \<open>for\<close> loop over the items of one page. An exception leaves the loop, and the
  \<open>while\<close> loop with it, with the products appended so far; the flag says whether
  the page was read to its end.
\<close>

fun catalog_items :: "pylib \<Rightarrow> string \<Rightarrow> json list \<Rightarrow> Product list \<Rightarrow> Product list \<times> bool" where
  "catalog_items L base [] products = (products, True)"
| "catalog_items L base (it # its) products =
     (case catalog_item L base it of
        Inl e \<Rightarrow> (products, False)
      | Inr p \<Rightarrow> catalog_items L base its (products @ [p]))"

text \<open>
  One round of the \<open>while True\<close> loop: the request for page \<open>page\<close> and what it adds
  to \<open>products\<close>. The flag is true when the loop goes on (\<open>page += 1\<close>) and false
  at a \<open>break\<close>.
\<close>

definition catalog_page :: "pylib \<Rightarrow> Client \<Rightarrow> string \<Rightarrow> nat \<Rightarrow> Product list \<Rightarrow> Product list \<times> bool" where
  "catalog_page L client base page products =
     (case client (urljoin L base (''/products.json?limit=250&page='' @ str_nat page)) of
        Raises e \<Rightarrow> (products, False)
      | Returns r \<Rightarrow>
          if status_code r \<noteq> 200 then (products, False)
          else (case parsed_json r of
                  Inl e \<Rightarrow> (products, False)
                | Inr data \<Rightarrow>
                    (case py_get data ''products'' (JList []) of
                       Inl e \<Rightarrow> (products, False)
                     | Inr items \<Rightarrow>
                         if \<not> truthy items then (products, False)
                         else (case py_iter items of
                                 Inl e \<Rightarrow> (products, False)
                               | Inr its \<Rightarrow> catalog_items L base its products))))"

text \<open>
  The \<open>while True\<close> loop has no bound of its own: it returns when a round breaks.
  A run that never breaks is the value \<open>None\<close>.
\<close>

partial_function (option) scrape_catalog_loop ::
  "pylib \<Rightarrow> Client \<Rightarrow> string \<Rightarrow> nat \<Rightarrow> Product list \<Rightarrow> Product list option" where
  "scrape_catalog_loop L client base page products =
     (case catalog_page L client base page products of
        (products', go_on) \<Rightarrow>
          if go_on then scrape_catalog_loop L client base (page + 1) products'
          else Some products')"

definition scrape_catalog :: "pylib \<Rightarrow> Client \<Rightarrow> string \<Rightarrow> Product list option" where
  "scrape_catalog L client base = scrape_catalog_loop L client base 1 []"

subsection \<open>Policies\<close>

definition POLICY_PATHS :: "(string \<times> string) list" where
  "POLICY_PATHS =
     [(''privacy'', ''/policies/privacy-policy''), (''refund'', ''/policies/refund-policy''),
      (''return'', ''/policies/return-policy''), (''shipping'', ''/policies/shipping-policy''),
      (''terms'', ''/policies/terms-of-service'')]"

fun policies_loop ::
  "pylib \<Rightarrow> Client \<Rightarrow> string \<Rightarrow> (string \<times> string) list \<Rightarrow> Policy list \<Rightarrow> exc + Policy list" where
  "policies_loop L client base [] out = Inr out"
| "policies_loop L client base ((ptype, path) # rest) out =
     (case fetch_html L client base path of
        Inl e \<Rightarrow> Inl e
      | Inr None \<Rightarrow> policies_loop L client base rest out
      | Inr (Some soup) \<Rightarrow>
          policies_loop L client base rest
            (out @ [\<lparr>policy_type = ptype, policy_url = Some (urljoin L base path),
                     policy_text_excerpt = Some (text_excerpt (get_text soup) 800)\<rparr>]))"

definition scrape_policies :: "pylib \<Rightarrow> Client \<Rightarrow> string \<Rightarrow> exc + Policy list" where
  "scrape_policies L client base = policies_loop L client base POLICY_PATHS []"

subsection \<open>FAQs\<close>

text \<open>
  One entry of \<open>mainEntity\<close>: the question, the answer, and the item appended when
  both are non-empty.
\<close>

definition faq_answer :: "json \<Rightarrow> exc + string" where
  "faq_answer ent =
     (case py_get ent ''acceptedAnswer'' JNull of
        Inl e \<Rightarrow> Inl e
      | Inr v \<Rightarrow>
          (let aa = (if truthy v then v else JDict [])
           in case aa of
                JDict kvs \<Rightarrow>
                  (case py_get aa ''text'' JNull of Inl e \<Rightarrow> Inl e | Inr t \<Rightarrow> or_empty_strip t)
              | _ \<Rightarrow> Inr []))"

definition faq_entity :: "string \<Rightarrow> json \<Rightarrow> exc + FAQItem list" where
  "faq_entity u ent =
     (case py_get ent ''name'' JNull of
        Inl e \<Rightarrow> Inl e
      | Inr n \<Rightarrow>
          (case or_empty_strip n of
             Inl e \<Rightarrow> Inl e
           | Inr q \<Rightarrow>
               (case faq_answer ent of
                  Inl e \<Rightarrow> Inl e
                | Inr a \<Rightarrow>
                    Inr (if q \<noteq> [] \<and> a \<noteq> []
                         then [\<lparr>question = q, answer = a, faq_url = Some u\<rparr>]
                         else []))))"

text \<open>
  The loop over \<open>mainEntity\<close> runs inside the \<open>try\<close> of its script: an exception ends
  it, and the items appended before stay.
\<close>

fun faq_entities :: "string \<Rightarrow> json list \<Rightarrow> FAQItem list \<Rightarrow> FAQItem list" where
  "faq_entities u [] faqs = faqs"
| "faq_entities u (ent # ents) faqs =
     (case faq_entity u ent of
        Inl e \<Rightarrow> faqs
      | Inr new \<Rightarrow> faq_entities u ents (faqs @ new))"

text \<open>One JSON-LD script: what it adds to \<open>faqs\<close>.\<close>

definition script_faqs :: "pylib \<Rightarrow> string \<Rightarrow> element \<Rightarrow> FAQItem list \<Rightarrow> FAQItem list" where
  "script_faqs L u s faqs =
     (case json_loads L (text_of s) of
        Inl e \<Rightarrow> faqs
      | Inr data \<Rightarrow>
          (case data of
             JDict kvs \<Rightarrow>
               if py_get data ''@type'' JNull = Inr (JStr ''FAQPage'')
               then (case py_get data ''mainEntity'' (JList []) of
                       Inl e \<Rightarrow> faqs
                     | Inr ents \<Rightarrow>
                         (case py_iter ents of
                            Inl e \<Rightarrow> faqs
                          | Inr es \<Rightarrow> faq_entities u es faqs))
               else faqs
           | _ \<Rightarrow> faqs))"

text \<open>One \<open>details\<close> tag: the item it adds, if any.\<close>

definition details_faq :: "string \<Rightarrow> element \<Rightarrow> FAQItem list" where
  "details_faq u det =
     (let q = str_strip (case find_first det ''summary'' of
                           Some summ \<Rightarrow> get_text summ
                         | None \<Rightarrow> []);
          a = get_text det
      in if q \<noteq> [] \<and> a \<noteq> [] then [\<lparr>question = q, answer = a, faq_url = Some u\<rparr>] else [])"

text \<open>
  The two loops the program runs on one fetched page, one after the other on the same
  list \<open>faqs\<close>: the JSON-LD scripts, then the \<open>details\<close> tags.
\<close>

definition jsonld_faqs :: "pylib \<Rightarrow> string \<Rightarrow> element \<Rightarrow> FAQItem list" where
  "jsonld_faqs L u soup =
     foldl (\<lambda>faqs s. script_faqs L u s faqs) []
       (select soup [Sel ''script'' ''type'' AttrEquals ''application/ld+json''])"

definition disclosure_faqs :: "string \<Rightarrow> element \<Rightarrow> FAQItem list \<Rightarrow> FAQItem list" where
  "disclosure_faqs u soup faqs =
     foldl (\<lambda>faqs det. faqs @ details_faq u det) faqs (find_all soup ''details'')"

definition page_faqs :: "pylib \<Rightarrow> string \<Rightarrow> string \<Rightarrow> element \<Rightarrow> FAQItem list" where
  "page_faqs L base path soup =
     (let u = urljoin L base path in disclosure_faqs u soup (jsonld_faqs L u soup))"

fun faqs_loop :: "pylib \<Rightarrow> Client \<Rightarrow> string \<Rightarrow> string list \<Rightarrow> exc + FAQItem list" where
  "faqs_loop L client base [] = Inr []"
| "faqs_loop L client base (path # paths) =
     (case fetch_html L client base path of
        Inl e \<Rightarrow> Inl e
      | Inr None \<Rightarrow> faqs_loop L client base paths
      | Inr (Some soup) \<Rightarrow>
          (let faqs = page_faqs L base path soup
           in if faqs \<noteq> [] then Inr faqs else faqs_loop L client base paths))"

definition FAQ_PATHS :: "string list" where
  "FAQ_PATHS = [''/pages/faq'', ''/pages/faqs'', ''/pages/help'', ''/pages/support'']"

definition scrape_faqs :: "pylib \<Rightarrow> Client \<Rightarrow> string \<Rightarrow> exc + FAQItem list" where
  "scrape_faqs L client base = faqs_loop L client base FAQ_PATHS"

subsection \<open>Social links\<close>

fun social_loop ::
  "pylib \<Rightarrow> string list \<Rightarrow> (string \<rightharpoonup> string option) \<Rightarrow> (string \<rightharpoonup> string option)" where
  "social_loop L [] out = out"
| "social_loop L (href # hrefs) out =
     (case classify_social L href of
        None \<Rightarrow> social_loop L hrefs out
      | Some key \<Rightarrow>
          if key \<noteq> [] \<and> out key = None then social_loop L hrefs (out(key \<mapsto> Some href))
          else social_loop L hrefs out)"

definition scrape_social :: "pylib \<Rightarrow> element option \<Rightarrow> (string \<rightharpoonup> string option)" where
  "scrape_social L soup =
     (case soup of None \<Rightarrow> Map.empty | Some doc \<Rightarrow> social_loop L (hrefs_of doc) Map.empty)"

subsection \<open>Contact\<close>

text \<open>The loop over the \<open>mailto:\<close> and \<open>tel:\<close> anchors, on their \<open>href\<close> values.\<close>

fun contact_anchors :: "string list \<Rightarrow> string list \<times> string list \<Rightarrow> string list \<times> string list" where
  "contact_anchors [] ep = ep"
| "contact_anchors (href # hrefs) (emails, phones) =
     contact_anchors hrefs
       (if str_startswith href ''mailto:''
        then emails @ [str_strip (str_replace ''mailto:'' [] href)] else emails,
        if str_startswith href ''tel:''
        then phones @ [str_strip (str_replace ''tel:'' [] href)] else phones)"

text \<open>What the first page that resolves gives: the e-mail addresses and the phone numbers.\<close>

definition contact_page :: "pylib \<Rightarrow> element \<Rightarrow> string list \<times> string list" where
  "contact_page L soup =
     (let txt = get_text soup
      in contact_anchors
           (List.map_filter (\<lambda>a. get_attr a ''href'')
              (select soup [Sel ''a'' ''href'' AttrPrefix ''mailto:'', Sel ''a'' ''href'' AttrPrefix ''tel:'']))
           (EMAIL_RE_findall L txt, PHONE_RE_findall L txt))"

text \<open>
  The loop over the paths: it breaks at the first page that resolves. Its result is
  the three variables \<open>emails\<close>, \<open>phones\<close> and \<open>page_url\<close>.
\<close>

fun contact_loop ::
  "pylib \<Rightarrow> Client \<Rightarrow> string \<Rightarrow> string list \<Rightarrow> exc + (string list \<times> string list \<times> string option)" where
  "contact_loop L client base [] = Inr ([], [], None)"
| "contact_loop L client base (path # paths) =
     (case fetch_html L client base path of
        Inl e \<Rightarrow> Inl e
      | Inr None \<Rightarrow> contact_loop L client base paths
      | Inr (Some soup) \<Rightarrow>
          (case contact_page L soup of
             (emails, phones) \<Rightarrow> Inr (emails, phones, Some (urljoin L base path))))"

text \<open>
  \<open>sorted(set(xs)) or None\<close>. Strings are ordered as Python orders them: character by
  character, a proper prefix before the longer string.
\<close>

definition sorted_or_none :: "string list \<Rightarrow> contact_value option" where
  "sorted_or_none xs =
     (case sorted_list_of_set (set xs) of [] \<Rightarrow> None | y # ys \<Rightarrow> Some (StrList (y # ys)))"

definition CONTACT_PATHS :: "string list" where
  "CONTACT_PATHS = [''/pages/contact'', ''/pages/contact-us'', ''/contact'']"

definition scrape_contact ::
  "pylib \<Rightarrow> Client \<Rightarrow> string \<Rightarrow> exc + (string \<rightharpoonup> contact_value option)" where
  "scrape_contact L client base =
     (case contact_loop L client base CONTACT_PATHS of
        Inl e \<Rightarrow> Inl e
      | Inr (emails, phones, page_url) \<Rightarrow>
          Inr [''emails'' \<mapsto> sorted_or_none emails,
               ''phones'' \<mapsto> sorted_or_none phones,
               ''contact_page'' \<mapsto> map_option Str page_url])"

subsection \<open>About\<close>

fun about_loop :: "pylib \<Rightarrow> Client \<Rightarrow> string \<Rightarrow> string list \<Rightarrow> exc + string option" where
  "about_loop L client base [] = Inr None"
| "about_loop L client base (path # paths) =
     (case fetch_html L client base path of
        Inl e \<Rightarrow> Inl e
      | Inr None \<Rightarrow> about_loop L client base paths
      | Inr (Some soup) \<Rightarrow> Inr (Some (text_excerpt (get_text soup) 1200)))"

definition scrape_about :: "pylib \<Rightarrow> Client \<Rightarrow> string \<Rightarrow> exc + string option" where
  "scrape_about L client base =
     about_loop L client base [''/pages/about'', ''/pages/our-story'', ''/pages/about-us'']"

subsection \<open>Important links\<close>

definition LINK_PATHS :: "(string \<times> string) list" where
  "LINK_PATHS =
     [(''/pages/track'', ''order_tracking''), (''/pages/track-order'', ''order_tracking''),
      (''/pages/order-tracking'', ''order_tracking''), (''/pages/contact'', ''contact_us''),
      (''/blogs/news'', ''blogs''), (''/blogs'', ''blogs'')]"

text \<open>The loop has no \<open>break\<close>: every path is fetched, and \<open>out[key]\<close> is assigned
  for each one that resolves.\<close>

fun links_loop ::
  "pylib \<Rightarrow> Client \<Rightarrow> string \<Rightarrow> (string \<times> string) list \<Rightarrow> (string \<rightharpoonup> string option)
     \<Rightarrow> exc + (string \<rightharpoonup> string option)" where
  "links_loop L client base [] out = Inr out"
| "links_loop L client base ((path, key) # rest) out =
     (case fetch_html L client base path of
        Inl e \<Rightarrow> Inl e
      | Inr None \<Rightarrow> links_loop L client base rest out
      | Inr (Some soup) \<Rightarrow> links_loop L client base rest (out(key \<mapsto> Some (urljoin L base path))))"

definition scrape_important_links ::
  "pylib \<Rightarrow> Client \<Rightarrow> string \<Rightarrow> exc + (string \<rightharpoonup> string option)" where
  "scrape_important_links L client base =
     links_loop L client base LINK_PATHS
       [''order_tracking'' \<mapsto> None, ''contact_us'' \<mapsto> None, ''blogs'' \<mapsto> None]"

section \<open>Aggregator\<close>

text \<open>
  The schemas of the aggregate and of the two endpoints' results. A dictionary field is
  a map whose values may be \<open>None\<close>: a key that is present with the value \<open>None\<close>
  maps to \<open>Some None\<close>.
\<close>

record BrandContext =
  store_url :: string
  brand_name :: "string option"
  hero_products :: "Product list"
  catalog :: "Product list"
  policies :: "Policy list"
  faqs :: "FAQItem list"
  social :: "string \<rightharpoonup> string option"
  contact :: "string \<rightharpoonup> contact_value option"
  about_text :: "string option"
  important_links :: "string \<rightharpoonup> string option"
  fetched_at :: string

record CompetitorResult =
  brand :: BrandContext
  competitor_contexts :: "BrandContext list"

datatype HTTPException = HTTPException (http_status: nat) (detail: string)

text \<open>
  The scrapers run in the order of the source. The result is \<open>None\<close> when the catalog
  loop never returns, an exception when a fetch raises past \<open>fetch_html\<close> or the
  store URL fails the validation of the schema, and the record otherwise.
\<close>

definition get_brand_context :: "pylib \<Rightarrow> Client \<Rightarrow> string \<Rightarrow> (exc + BrandContext) option" where
  "get_brand_context L client website_url =
     (let base = (if str_endswith website_url ''/'' then website_url else website_url @ ''/'')
      in case fetch_html L client base ''/'' of
           Inl e \<Rightarrow> Some (Inl e)
         | Inr home \<Rightarrow>
        (case scrape_catalog L client base of
           None \<Rightarrow> None
         | Some cat \<Rightarrow>
        (case scrape_policies L client base of
           Inl e \<Rightarrow> Some (Inl e)
         | Inr pols \<Rightarrow>
        (case scrape_faqs L client base of
           Inl e \<Rightarrow> Some (Inl e)
         | Inr fqs \<Rightarrow>
        (case scrape_contact L client base of
           Inl e \<Rightarrow> Some (Inl e)
         | Inr con \<Rightarrow>
        (case scrape_about L client base of
           Inl e \<Rightarrow> Some (Inl e)
         | Inr about \<Rightarrow>
        (case scrape_important_links L client base of
           Inl e \<Rightarrow> Some (Inl e)
         | Inr links \<Rightarrow>
             if is_http_url L base
             then Some (Inr \<lparr>store_url = base,
                             brand_name = scrape_brand_name home,
                             hero_products = scrape_hero_products L base home,
                             catalog = cat,
                             policies = pols,
                             faqs = fqs,
                             social = scrape_social L home,
                             contact = con,
                             about_text = about,
                             important_links = links,
                             fetched_at = utcnow_isoformat L @ ''Z''\<rparr>)
             else Some (raise OtherException))))))))"

section \<open>Competitor finder\<close>

definition looks_like_shopify :: "pylib \<Rightarrow> Client \<Rightarrow> string \<Rightarrow> bool" where
  "looks_like_shopify L client u =
     (let root = normalize_root L u
      in case fetch_json_ok client (urljoin L root ''/products.json?limit=1'') of
           Some (JDict kvs) \<Rightarrow> map_of kvs ''products'' \<noteq> None
         | _ \<Rightarrow> False)"

text \<open>
  The inner \<open>for\<close> loop over the anchors of one search-result page, with the two
  variables \<open>candidates\<close> and \<open>seen_hosts\<close>. Its \<open>break\<close> leaves this loop only.
\<close>

fun scan_anchors ::
  "pylib \<Rightarrow> string \<Rightarrow> int \<Rightarrow> string list \<Rightarrow> string list \<times> string set \<Rightarrow> string list \<times> string set" where
  "scan_anchors L self_host limit [] st = st"
| "scan_anchors L self_host limit (href # hrefs) (candidates, seen_hosts) =
     (if \<not> str_startswith href ''http'' then scan_anchors L self_host limit hrefs (candidates, seen_hosts)
      else
        (let host = netloc (urlparse L href)
         in if host = [] \<or> host = self_host
            then scan_anchors L self_host limit hrefs (candidates, seen_hosts)
            else
              (let root_cand = normalize_root L href;
                   h = netloc (urlparse L root_cand)
               in if h \<in> seen_hosts then scan_anchors L self_host limit hrefs (candidates, seen_hosts)
                  else if int (length (candidates @ [root_cand])) \<ge> limit * 4
                  then (candidates @ [root_cand], insert h seen_hosts)
                  else scan_anchors L self_host limit hrefs
                         (candidates @ [root_cand], insert h seen_hosts))))"

text \<open>
  The outer loop over the queries. A response that is not 200 and an exception of the
  client both go to the next query.
\<close>

fun search_loop ::
  "pylib \<Rightarrow> Client \<Rightarrow> string \<Rightarrow> int \<Rightarrow> string list \<Rightarrow> string list \<times> string set \<Rightarrow> string list \<times> string set" where
  "search_loop L client self_host limit [] st = st"
| "search_loop L client self_host limit (q # qs) st =
     (case client (''https://duckduckgo.com/html/?q='' @ quote_plus L q) of
        Raises e \<Rightarrow> search_loop L client self_host limit qs st
      | Returns r \<Rightarrow>
          if status_code r \<noteq> 200 then search_loop L client self_host limit qs st
          else search_loop L client self_host limit qs
                 (scan_anchors L self_host limit (hrefs_of (parsed_html r)) st))"

definition search_queries :: "string \<Rightarrow> string option \<Rightarrow> string list" where
  "search_queries self_host bname =
     (let host_without_www = str_replace ''www.'' [] self_host;
          by_host = [host_without_www @ '' competitors shopify'',
                     host_without_www @ '' similar brands shopify'']
      in case bname of
           None \<Rightarrow> by_host
         | Some b \<Rightarrow>
             if b \<noteq> []
             then [b @ '' shopify'', b @ '' competitors shopify'', b @ '' similar brands shopify'']
             else by_host)"

text \<open>The list \<open>candidates\<close> as it stands when the search loop is over.\<close>

definition competitor_candidates :: "pylib \<Rightarrow> Client \<Rightarrow> string \<Rightarrow> string option \<Rightarrow> int \<Rightarrow> string list" where
  "competitor_candidates L client website_url bname limit =
     (let root = normalize_root L website_url;
          self_host = netloc (urlparse L root)
      in fst (search_loop L client self_host limit (search_queries self_host bname) ([], {})))"

text \<open>The second loop: the candidates that look like a Shopify store, up to \<open>limit\<close>.\<close>

fun filter_candidates :: "pylib \<Rightarrow> Client \<Rightarrow> int \<Rightarrow> string list \<Rightarrow> string list \<Rightarrow> string list" where
  "filter_candidates L client limit [] filtered = filtered"
| "filter_candidates L client limit (cand # cands) filtered =
     (if int (length filtered) \<ge> limit then filtered
      else filter_candidates L client limit cands
             (if looks_like_shopify L client cand then filtered @ [cand] else filtered))"

text \<open>\<open>xs[:k]\<close>.\<close>

definition slice_to :: "'a list \<Rightarrow> int \<Rightarrow> 'a list" where
  "slice_to xs k = (if k \<ge> 0 then take (nat k) xs else take (length xs - nat (- k)) xs)"

definition find_competitor_candidates ::
  "pylib \<Rightarrow> Client \<Rightarrow> string \<Rightarrow> string option \<Rightarrow> int \<Rightarrow> string list" where
  "find_competitor_candidates L client website_url bname limit =
     slice_to (filter_candidates L client limit
                 (competitor_candidates L client website_url bname limit) []) limit"

section \<open>Routers\<close>

definition NOT_FOUND :: HTTPException where
  "NOT_FOUND = HTTPException 401 ''Website not found or not a typical Shopify storefront.''"

definition internal_error :: "exc \<Rightarrow> HTTPException" where
  "internal_error e = HTTPException 500 (''Internal error: '' @ message e)"

definition insights :: "pylib \<Rightarrow> Client \<Rightarrow> string \<Rightarrow> (HTTPException + BrandContext) option" where
  "insights L client website_url =
     (case get_brand_context L client website_url of
        None \<Rightarrow> None
      | Some (Inl e) \<Rightarrow> Some (Inl (internal_error e))
      | Some (Inr ctx) \<Rightarrow>
          if catalog ctx = [] \<and> hero_products ctx = [] then Some (Inl NOT_FOUND)
          else Some (Inr ctx))"

text \<open>
  The loop of \<open>competitors\<close> over the competitor URLs: an exception of
  \<open>get_brand_context\<close> skips the URL, and a context is kept when its catalog or its
  hero products are non-empty.
\<close>

fun competitor_loop ::
  "pylib \<Rightarrow> Client \<Rightarrow> string list \<Rightarrow> BrandContext list \<Rightarrow> BrandContext list option" where
  "competitor_loop L client [] acc = Some acc"
| "competitor_loop L client (cu # cus) acc =
     (case get_brand_context L client cu of
        None \<Rightarrow> None
      | Some (Inl e) \<Rightarrow> competitor_loop L client cus acc
      | Some (Inr cctx) \<Rightarrow>
          competitor_loop L client cus
            (if catalog cctx \<noteq> [] \<or> hero_products cctx \<noteq> [] then acc @ [cctx] else acc))"

definition competitors ::
  "pylib \<Rightarrow> Client \<Rightarrow> string \<Rightarrow> int \<Rightarrow> (HTTPException + CompetitorResult) option" where
  "competitors L client website_url limit =
     (case get_brand_context L client website_url of
        None \<Rightarrow> None
      | Some (Inl e) \<Rightarrow> Some (Inl (internal_error e))
      | Some (Inr brand_ctx) \<Rightarrow>
          if catalog brand_ctx = [] \<and> hero_products brand_ctx = [] then Some (Inl NOT_FOUND)
          else
            (case competitor_loop L client
                    (find_competitor_candidates L client (store_url brand_ctx)
                       (brand_name brand_ctx) limit) [] of
               None \<Rightarrow> None
             | Some cs \<Rightarrow> Some (Inr \<lparr>brand = brand_ctx, competitor_contexts = cs\<rparr>)))"

section \<open>Notions the properties are stated with\<close>

text \<open>
  Page \<open>n\<close> of the catalog feed ends the pagination when its response is not a 200,
  or is a 200 whose JSON has an empty list (or no list) under \<open>products\<close>.
\<close>

definition page_ends :: "pylib \<Rightarrow> Client \<Rightarrow> string \<Rightarrow> nat \<Rightarrow> bool" where
  "page_ends L client base n =
     (case client (urljoin L base (''/products.json?limit=250&page='' @ str_nat n)) of
        Raises e \<Rightarrow> False
      | Returns r \<Rightarrow>
          status_code r \<noteq> 200 \<or>
          (case parsed_json r of
             Inl e \<Rightarrow> False
           | Inr data \<Rightarrow> py_get data ''products'' (JList []) = Inr (JList [])))"

text \<open>
  The state of the \<open>while\<close> loop of \<open>scrape_catalog\<close> after at most \<open>k\<close> rounds, started
  at page \<open>page\<close> with the list \<open>products\<close>: the list accumulated, and whether the loop
  is still running.
\<close>

fun pages_consumed ::
  "pylib \<Rightarrow> Client \<Rightarrow> string \<Rightarrow> nat \<Rightarrow> nat \<Rightarrow> Product list \<Rightarrow> Product list \<times> bool" where
  "pages_consumed L client base 0 page products = (products, True)"
| "pages_consumed L client base (Suc k) page products =
     (case catalog_page L client base page products of
        (products', go_on) \<Rightarrow>
          if go_on then pages_consumed L client base k (page + 1) products'
          else (products', False))"

text \<open>
  The price value the first variant of a catalog item carries, if the item has a
  list of variants whose first entry is a dictionary with a true value under \<open>price\<close>.
\<close>

definition first_variant_price :: "json \<Rightarrow> json option" where
  "first_variant_price it =
     (case it of
        JDict kvs \<Rightarrow>
          (case map_of kvs ''variants'' of
             Some (JList (JDict v0 # vs)) \<Rightarrow>
               (case map_of v0 ''price'' of
                  Some pv \<Rightarrow> if truthy pv then Some pv else None
                | None \<Rightarrow> None)
           | _ \<Rightarrow> None)
      | _ \<Rightarrow> None)"






text \<open>
  A path resolves when \<open>fetch_html\<close> returns a document for it. The URLs of the paths
  of a list that belong to a key and resolve, in the order of the list; the first and
  the last of them for the paths of \<open>scrape_important_links\<close>.
\<close>

definition resolves :: "pylib \<Rightarrow> Client \<Rightarrow> string \<Rightarrow> string \<Rightarrow> bool" where
  "resolves L client base path =
     (case fetch_html L client base path of Inr (Some soup) \<Rightarrow> True | _ \<Rightarrow> False)"

definition resolving :: "pylib \<Rightarrow> Client \<Rightarrow> string \<Rightarrow> (string \<times> string) list \<Rightarrow> string \<Rightarrow> string list" where
  "resolving L client base paths key =
     map (\<lambda>pk. urljoin L base (fst pk))
       (filter (\<lambda>pk. snd pk = key \<and> resolves L client base (fst pk)) paths)"

definition first_resolving :: "pylib \<Rightarrow> Client \<Rightarrow> string \<Rightarrow> string \<Rightarrow> string option" where
  "first_resolving L client base key =
     (case resolving L client base LINK_PATHS key of [] \<Rightarrow> None | u # us \<Rightarrow> Some u)"

definition last_resolving :: "pylib \<Rightarrow> Client \<Rightarrow> string \<Rightarrow> string \<Rightarrow> string option" where
  "last_resolving L client base key =
     (case rev (resolving L client base LINK_PATHS key) of [] \<Rightarrow> None | u # us \<Rightarrow> Some u)"

text \<open>Every path that \<open>get_brand_context\<close> asks \<open>fetch_html\<close> for.\<close>

definition PROBED_PATHS :: "string list" where
  "PROBED_PATHS =
     ''/'' # map snd POLICY_PATHS @ FAQ_PATHS @ CONTACT_PATHS @
     [''/pages/about'', ''/pages/our-story'', ''/pages/about-us''] @ map fst LINK_PATHS"

text \<open>
  The state of the search loop keeps its hosts apart: the hosts of the candidates are
  pairwise different, and all of them are in \<open>seen_hosts\<close>.
\<close>

definition hosts_ok :: "pylib \<Rightarrow> string list \<times> string set \<Rightarrow> bool" where
  "hosts_ok L st =
     (distinct (map (\<lambda>c. netloc (urlparse L c)) (fst st)) \<and>
      set (map (\<lambda>c. netloc (urlparse L c)) (fst st)) \<subseteq> snd st)"

section \<open>A small store, for concrete runs\<close>

text \<open>
  One instance of the library record: a \<open>urljoin\<close> that is right for a root URL and
  an absolute path, a \<open>urlparse\<close> that cuts \<open>scheme://host/...\<close>, a \<open>float\<close> that knows
  one decimal, a \<open>json.loads\<close> that knows one text, and patterns that pick the words with an \<open>@\<close> and the words that start
  with \<open>+\<close>.
\<close>

definition toy_float :: "json \<Rightarrow> exc + real" where
  "toy_float v =
     (case v of
        JStr s \<Rightarrow> if s = ''19.99'' then Inr (1999 / 100)
                  else Inl (Exc ValueError ''could not convert string to float'')
      | JInt i \<Rightarrow> Inr (real_of_int i)
      | JFloat r \<Rightarrow> Inr r
      | _ \<Rightarrow> Inl (Exc TypeError ''float() argument must be a string or a real number''))"

definition toy_urlparse :: "string \<Rightarrow> ParseResult" where
  "toy_urlparse u =
     (let s = takeWhile (\<lambda>c. c \<noteq> CHR '':'') u
      in \<lparr>scheme = s, netloc = takeWhile (\<lambda>c. c \<noteq> CHR ''/'') (drop (length s + 3) u)\<rparr>)"

text \<open>The text of one JSON-LD script, and the value \<open>json.loads\<close> reads from it.\<close>

definition faq_script_text :: string where
  "faq_script_text = ''{FAQPage: Do you ship? Yes, worldwide.}''"

definition faq_json :: json where
  "faq_json =
     JDict [(''@type'', JStr ''FAQPage''),
            (''mainEntity'',
             JList [JDict [(''@type'', JStr ''Question''), (''name'', JStr ''Do you ship?''),
                           (''acceptedAnswer'',
                            JDict [(''@type'', JStr ''Answer''),
                                   (''text'', JStr '' Yes, worldwide. '')])]])]"

definition toy_loads :: "string \<Rightarrow> exc + json" where
  "toy_loads s = (if s = faq_script_text then Inr faq_json
                  else Inl (Exc ValueError ''Expecting value''))"

definition toy_lib :: pylib where
  "toy_lib =
     \<lparr>urljoin = (\<lambda>b p. if str_startswith p ''/'' then butlast b @ p else b @ p),
      urlparse = toy_urlparse,
      quote_plus = map (\<lambda>c. if c = CHR '' '' then CHR ''+'' else c),
      json_loads = toy_loads,
      py_float = toy_float,
      py_str = (\<lambda>v. ''None''),
      EMAIL_RE_findall = (\<lambda>t. filter (\<lambda>w. CHR ''@'' \<in> set w) (str_split t)),
      PHONE_RE_findall = (\<lambda>t. filter (\<lambda>w. str_startswith w ''+'') (str_split t)),
      utcnow_isoformat = ''2024-05-01T12:00:00'',
      is_http_url = (\<lambda>u. str_startswith u ''http'')\<rparr>"

definition empty_doc :: element where
  "empty_doc = Element ''[document]'' [] [] [] []"

definition not_found :: reply where
  "not_found = Returns \<lparr>status_code = 404, parsed_html = empty_doc,
                         parsed_json = Inl (Exc ValueError ''Expecting value'')\<rparr>"

definition json_page :: "json \<Rightarrow> reply" where
  "json_page v = Returns \<lparr>status_code = 200, parsed_html = empty_doc, parsed_json = Inr v\<rparr>"

definition html_page :: "element \<Rightarrow> reply" where
  "html_page doc = Returns \<lparr>status_code = 200, parsed_html = doc,
                            parsed_json = Inl (Exc ValueError ''Expecting value'')\<rparr>"

text \<open>A catalog feed of one page with two items: a numeric price and a price that is no number.\<close>

definition mug_item :: json where
  "mug_item = JDict [(''title'', JStr ''Mug''), (''handle'', JStr ''mug''),
                     (''variants'', JList [JDict [(''price'', JStr ''19.99'')]])]"

definition tee_item :: json where
  "tee_item = JDict [(''title'', JStr '' Tee ''), (''handle'', JStr ''tee''),
                     (''variants'', JList [JDict [(''price'', JStr ''call us'')]])]"

text \<open>
  An item whose price is the number 0, and an item whose title is the number 5 and
  whose price is no number.
\<close>

definition free_item :: json where
  "free_item = JDict [(''title'', JStr ''Sample''), (''handle'', JStr ''sample''),
                      (''variants'', JList [JDict [(''price'', JInt 0)]])]"

definition numbered_item :: json where
  "numbered_item = JDict [(''title'', JInt 5), (''handle'', JStr ''five''),
                          (''variants'', JList [JDict [(''price'', JStr ''call us'')]])]"

definition two_item_client :: Client where
  "two_item_client u =
     (if u = ''https://shop.example/products.json?limit=250&page=1''
      then json_page (JDict [(''products'', JList [mug_item, tee_item])])
      else not_found)"






text \<open>
  A store whose \<open>/pages/contact\<close> is missing and whose \<open>/pages/contact-us\<close> and
  \<open>/contact\<close> both resolve, with different contents.
\<close>

definition contact_doc :: element where
  "contact_doc =
     Element ''[document]'' [] ''Write to sales@shop.example or help@shop.example''
       ''Write to sales@shop.example or help@shop.example''
       [Element ''a'' [(''href'', ''mailto: help@shop.example'')] ''Mail us'' ''Mail us'' [],
        Element ''a'' [(''href'', ''/pages/faq'')] ''FAQ'' ''FAQ'' []]"

definition other_contact_doc :: element where
  "other_contact_doc =
     Element ''[document]'' [] ''Call +1-555-0100'' ''Call +1-555-0100''
       [Element ''a'' [(''href'', ''tel:+1-555-0100'')] ''Call'' ''Call'' []]"

definition contact_client :: Client where
  "contact_client u =
     (if u = ''https://shop.example/pages/contact-us'' then html_page contact_doc
      else if u = ''https://shop.example/contact'' then html_page other_contact_doc
      else not_found)"




text \<open>A store where two of the order-tracking paths and the news blog resolve.\<close>

definition links_client :: Client where
  "links_client u =
     (if u = ''https://shop.example/pages/track'' then html_page empty_doc
      else if u = ''https://shop.example/pages/track-order'' then html_page empty_doc
      else if u = ''https://shop.example/blogs/news'' then html_page empty_doc
      else not_found)"

text \<open>A host where nothing resolves.\<close>

definition dead_client :: Client where
  "dead_client u = not_found"

text \<open>
  A market: the store with its two-item feed, one page of search results that links
  to the store itself, twice to a rival and once to a blog, and the rival with a feed
  of one item.
\<close>

definition search_doc :: element where
  "search_doc =
     Element ''[document]'' [] [] []
       (map (\<lambda>h. Element ''a'' [(''href'', h)] [] [] [])
          [''/settings'', ''https://shop.example/about'', ''https://rival.example/products/x'',
           ''https://rival.example/'', ''https://blog.example/post''])"

definition market_client :: Client where
  "market_client u =
     (if u = ''https://shop.example/products.json?limit=250&page=1''
      then json_page (JDict [(''products'', JList [mug_item, tee_item])])
      else if u = ''https://duckduckgo.com/html/?q=shop.example+competitors+shopify''
      then html_page search_doc
      else if u = ''https://rival.example/products.json?limit=1''
      then json_page (JDict [(''products'', JList [mug_item])])
      else if u = ''https://rival.example/products.json?limit=250&page=1''
      then json_page (JDict [(''products'', JList [mug_item])])
      else not_found)"

text \<open>
  Three pages of search results for the brand name \<open>Acme\<close>: five hosts on the first,
  one of them again and a new one on the second, that one again and one more on the
  third.
\<close>

definition crowded_client :: Client where
  "crowded_client u =
     (if u = ''https://duckduckgo.com/html/?q=Acme+shopify''
      then html_page (Element ''[document]'' [] [] []
             (map (\<lambda>h. Element ''a'' [(''href'', ''https://'' @ h @ ''.example/shop'')] [] [] [])
                [''a'', ''b'', ''c'', ''d'', ''e'']))
      else if u = ''https://duckduckgo.com/html/?q=Acme+competitors+shopify''
      then html_page (Element ''[document]'' [] [] []
             (map (\<lambda>h. Element ''a'' [(''href'', ''https://'' @ h @ ''.example/shop'')] [] [] [])
                [''e'', ''f'']))
      else if u = ''https://duckduckgo.com/html/?q=Acme+similar+brands+shopify''
      then html_page (Element ''[document]'' [] [] []
             (map (\<lambda>h. Element ''a'' [(''href'', ''https://'' @ h @ ''.example/shop'')] [] [] [])
                [''f'', ''g'']))
      else not_found)"

section \<open>Catalog pagination\<close>

lemma catalog_items_prefix: "prefix ps (fst (catalog_items L base its ps))"
proof (induction its arbitrary: ps)
  case Nil
  show ?case by simp
next
  case (Cons it its)
  show ?case
  proof (cases "catalog_item L base it")
    case (Inl e)
    then show ?thesis by simp
  next
    case (Inr p)
    have "prefix ps (ps @ [p])" by simp
    also have "prefix (ps @ [p]) (fst (catalog_items L base its (ps @ [p])))" by (rule Cons.IH)
    finally show ?thesis using Inr by simp
  qed
qed

lemma catalog_page_prefix: "prefix ps (fst (catalog_page L client base page ps))"
  by (simp add: catalog_page_def catalog_items_prefix split: reply.split sum.split)

lemma page_ends_breaks:
  "page_ends L client base n \<Longrightarrow> catalog_page L client base n ps = (ps, False)"
  by (auto simp: page_ends_def catalog_page_def split: reply.splits sum.splits)

lemma loop_goes_on:
  "catalog_page L client base page ps = (ps', True) \<Longrightarrow>
   scrape_catalog_loop L client base page ps = scrape_catalog_loop L client base (Suc page) ps'"
  by (subst scrape_catalog_loop.simps) simp

lemma loop_breaks:
  "catalog_page L client base page ps = (ps', False) \<Longrightarrow>
   scrape_catalog_loop L client base page ps = Some ps'"
  by (subst scrape_catalog_loop.simps) simp

text \<open>
  If some page from \<open>page\<close> on ends the pagination, the loop returns, after at most as
  many rounds as there are pages up to that one.
\<close>

lemma loop_returns:
  "page \<le> n \<Longrightarrow> page_ends L client base n \<Longrightarrow>
   \<exists>k ps'. k \<le> Suc (n - page) \<and> pages_consumed L client base k page ps = (ps', False) \<and>
           scrape_catalog_loop L client base page ps = Some ps'"
proof (induction "n - page" arbitrary: page ps)
  case 0
  then have "page = n" by simp
  with 0 have cp: "catalog_page L client base page ps = (ps, False)"
    by (simp add: page_ends_breaks)
  then have "pages_consumed L client base (Suc 0) page ps = (ps, False)" by simp
  moreover have "scrape_catalog_loop L client base page ps = Some ps"
    using cp by (rule loop_breaks)
  moreover have "Suc 0 \<le> Suc (n - page)" by simp
  ultimately show ?case by blast
next
  case (Suc d)
  obtain ps1 go where cp: "catalog_page L client base page ps = (ps1, go)"
    by (cases "catalog_page L client base page ps")
  show ?case
  proof (cases go)
    case False
    with cp have "pages_consumed L client base (Suc 0) page ps = (ps1, False)"
      and "scrape_catalog_loop L client base page ps = Some ps1"
      by (simp_all add: loop_breaks)
    moreover have "Suc 0 \<le> Suc (n - page)" by simp
    ultimately show ?thesis by blast
  next
    case True
    from Suc.hyps(2) Suc.prems have "d = n - (page + 1)" "page + 1 \<le> n" by simp_all
    from Suc.hyps(1)[OF this Suc.prems(2), of ps1]
    obtain k ps' where k: "k \<le> Suc (n - (page + 1))"
      "pages_consumed L client base k (page + 1) ps1 = (ps', False)"
      "scrape_catalog_loop L client base (page + 1) ps1 = Some ps'" by blast
    from cp True k have "pages_consumed L client base (Suc k) page ps = (ps', False)"
      and "scrape_catalog_loop L client base page ps = Some ps'"
      by (simp_all add: loop_goes_on)
    moreover from k(1) \<open>page + 1 \<le> n\<close> have "Suc k \<le> Suc (n - page)" by simp
    ultimately show ?thesis by blast
  qed
qed

lemma pages_consumed_grows:
  "prefix (fst (pages_consumed L client base k page ps))
          (fst (pages_consumed L client base (Suc k) page ps))"
proof (induction k arbitrary: page ps)
  case 0
  show ?case using catalog_page_prefix[of ps L client base page]
    by (cases "catalog_page L client base page ps") (simp split: if_split)
next
  case (Suc k)
  obtain ps1 go where cp: "catalog_page L client base page ps = (ps1, go)"
    by (cases "catalog_page L client base page ps")
  show ?case
  proof (cases go)
    case True
    with cp Suc.IH[of "page + 1" ps1] show ?thesis by simp
  next
    case False
    with cp show ?thesis by simp
  qed
qed

text \<open>What the loop returns is the list some number of rounds has accumulated.\<close>

lemma loop_is_pages_consumed:
  assumes "scrape_catalog_loop L client base page ps = Some res"
  shows "\<exists>k. pages_consumed L client base k page ps = (res, False)"
proof (rule scrape_catalog_loop.raw_induct[OF _ assms], goal_cases)
  case (1 loop L client base page ps res)
  obtain ps1 go where cp: "catalog_page L client base page ps = (ps1, go)"
    by (cases "catalog_page L client base page ps")
  show ?case
  proof (cases go)
    case False
    with cp 1(2) have "pages_consumed L client base (Suc 0) page ps = (res, False)" by simp
    then show ?thesis by blast
  next
    case True
    with cp 1(2) have "loop L client base (page + 1) ps1 = Some res" by simp
    then have "\<exists>k. pages_consumed L client base k (page + 1) ps1 = (res, False)" by (rule 1(1))
    then obtain k where "pages_consumed L client base k (page + 1) ps1 = (res, False)" ..
    with cp True have "pages_consumed L client base (Suc k) page ps = (res, False)" by simp
    then show ?thesis by blast
  qed
qed

lemma toy_page1:
  "urljoin toy_lib ''https://shop.example/'' ''/products.json?limit=250&page=1'' =
   ''https://shop.example/products.json?limit=250&page=1''"
  by (simp add: toy_lib_def str_startswith_def)

lemma two_item_client_page2:
  "page_ends toy_lib two_item_client ''https://shop.example/'' 2"
  by (simp add: page_ends_def toy_lib_def str_startswith_def two_item_client_def not_found_def
        str_nat.simps)

text \<open>
  Claim C4. The pagination of \<open>scrape_catalog\<close> requests the pages 1, 2, 3, ... in turn.
  If some page \<open>n \<ge> 1\<close> answers with a status other than 200 or with an empty item
  list, \<open>scrape_catalog\<close> returns, after at most \<open>n\<close> rounds, with the list those rounds
  have accumulated. And the accumulated list never gets shorter from one round to the
  next: its length after \<open>j\<close> rounds is at most its length after \<open>j + 1\<close> rounds,
  where whatever \<open>scrape_catalog\<close> returns is the list some number of rounds has
  accumulated.
\<close>

theorem scrape_catalog_terminates:
  "(1 \<le> n \<and> page_ends L client base n \<longrightarrow>
      (\<exists>k ps. k \<le> n \<and> pages_consumed L client base k 1 [] = (ps, False) \<and>
               scrape_catalog L client base = Some ps)) \<and>
   length (fst (pages_consumed L client base j 1 [])) \<le>
     length (fst (pages_consumed L client base (Suc j) 1 [])) \<and>
   (scrape_catalog L client base = Some res \<longrightarrow>
      (\<exists>k. pages_consumed L client base k 1 [] = (res, False)))"
proof (intro conjI impI)
  assume "scrape_catalog L client base = Some res"
  then show "\<exists>k. pages_consumed L client base k 1 [] = (res, False)"
    unfolding scrape_catalog_def by (rule loop_is_pages_consumed)
next
  assume "1 \<le> n \<and> page_ends L client base n"
  then have "1 \<le> n" "page_ends L client base n" by simp_all
  from loop_returns[OF this, of "[]"]
  show "\<exists>k ps. k \<le> n \<and> pages_consumed L client base k 1 [] = (ps, False) \<and>
               scrape_catalog L client base = Some ps"
    using \<open>1 \<le> n\<close> by (auto simp: scrape_catalog_def)
next
  show "length (fst (pages_consumed L client base j 1 [])) \<le>
     length (fst (pages_consumed L client base (Suc j) 1 []))"
    by (rule prefix_length_le) (rule pages_consumed_grows)
qed

theorem scrape_catalog_terminates_witness:
  "(1::nat) \<le> 2 \<and> page_ends toy_lib two_item_client ''https://shop.example/'' 2 \<and>
   (\<exists>k ps. k \<le> 2 \<and>
      pages_consumed toy_lib two_item_client ''https://shop.example/'' k 1 [] = (ps, False) \<and>
      scrape_catalog toy_lib two_item_client ''https://shop.example/'' = Some ps) \<and>
   length (fst (pages_consumed toy_lib two_item_client ''https://shop.example/'' 1 1 [])) \<le>
     length (fst (pages_consumed toy_lib two_item_client ''https://shop.example/'' (Suc 1) 1 []))"
  using scrape_catalog_terminates[of 2 toy_lib two_item_client "''https://shop.example/''" 1 "[]"]
    two_item_client_page2
  by simp

section \<open>Catalog prices\<close>

lemma item_price_of_first_variant:
  assumes "first_variant_price it = Some pv"
  shows "item_price L it =
           (case py_float L pv of
              Inr x \<Rightarrow> Inr (Some x)
            | Inl e \<Rightarrow> if cls e = ValueError then Inr None else Inl e)"
  using assms
  by (auto simp: first_variant_price_def item_price_def
           split: json.splits option.splits list.splits if_splits)

lemma catalog_item_fields:
  assumes "item_url L base it = Inr u" "item_image L base it = Inr img"
    "item_price L it = Inr pr" "item_title it = Inr t"
  shows "catalog_item L base it = Inr \<lparr>title = t, url = u, price = pr, image_url = img\<rparr>"
  using assms by (simp add: catalog_item_def)

text \<open>
  Claim C5, amended. Take a catalog item whose first variant carries a price value
  that is true (not \<open>None\<close>, not zero, not empty) and whose URL, image and title can
  be read. If \<open>float\<close> parses the value to the number \<open>x\<close>, the item's Product has
  the price \<open>x\<close>. If the value is a string that \<open>float\<close> rejects with a
  \<open>ValueError\<close>, the Product is produced all the same, and its price is absent. A
  price value that is false, the number 0 among them, leaves the price absent
  without being parsed. In particular, a feed whose first page holds two such items,
  the first with a numeric price and the second with a string that is no number, and
  whose second page ends the pagination, yields the two Products in this order, the
  first with its price and the second without.
\<close>

theorem catalog_price_parsed_or_absent:
  assumes "first_variant_price it1 = Some pv1" and "py_float L pv1 = Inr x"
    and "first_variant_price it2 = Some (JStr s)"
    and "py_float L (JStr s) = Inl e" and "cls e = ValueError"
    and "item_url L base it1 = Inr u1" and "item_image L base it1 = Inr i1"
    and "item_title it1 = Inr t1"
    and "item_url L base it2 = Inr u2" and "item_image L base it2 = Inr i2"
    and "item_title it2 = Inr t2"
  shows "catalog_item L base it1 = Inr \<lparr>title = t1, url = u1, price = Some x, image_url = i1\<rparr> \<and>
         catalog_item L base it2 = Inr \<lparr>title = t2, url = u2, price = None, image_url = i2\<rparr> \<and>
         (py_get it3 ''variants'' JNull = Inr (JList (v0 # vs)) \<and>
          py_get v0 ''price'' JNull = Inr pv \<and> \<not> truthy pv \<longrightarrow>
          item_price L it3 = Inr None) \<and>
         (client (urljoin L base ''/products.json?limit=250&page=1'') = Returns r \<and>
          status_code r = 200 \<and> parsed_json r = Inr data \<and>
          py_get data ''products'' (JList []) = Inr (JList [it1, it2]) \<and>
          page_ends L client base 2 \<longrightarrow>
          scrape_catalog L client base =
            Some [\<lparr>title = t1, url = u1, price = Some x, image_url = i1\<rparr>,
                  \<lparr>title = t2, url = u2, price = None, image_url = i2\<rparr>])"
proof -
  have p1: "item_price L it1 = Inr (Some x)"
    using assms(1,2) by (simp add: item_price_of_first_variant)
  have p2: "item_price L it2 = Inr None"
    using assms(3,4,5) by (simp add: item_price_of_first_variant)
  have c1: "catalog_item L base it1 = Inr \<lparr>title = t1, url = u1, price = Some x, image_url = i1\<rparr>"
    using assms(6,7,8) p1 by (simp add: catalog_item_fields)
  have c2: "catalog_item L base it2 = Inr \<lparr>title = t2, url = u2, price = None, image_url = i2\<rparr>"
    using assms(9,10,11) p2 by (simp add: catalog_item_fields)
  have e2e: "scrape_catalog L client base =
            Some [\<lparr>title = t1, url = u1, price = Some x, image_url = i1\<rparr>,
                  \<lparr>title = t2, url = u2, price = None, image_url = i2\<rparr>]"
    if h: "client (urljoin L base ''/products.json?limit=250&page=1'') = Returns r"
      "status_code r = 200" "parsed_json r = Inr data"
      "py_get data ''products'' (JList []) = Inr (JList [it1, it2])"
      "page_ends L client base 2"
  proof -
    have s1: "str_nat (Suc 0) = ''1''" by (simp add: str_nat.simps)
    have "catalog_page L client base 1 [] =
            ([\<lparr>title = t1, url = u1, price = Some x, image_url = i1\<rparr>,
              \<lparr>title = t2, url = u2, price = None, image_url = i2\<rparr>], True)"
      using h(1-4) c1 c2 by (simp add: catalog_page_def s1)
    moreover have "catalog_page L client base (Suc 1) ps = (ps, False)" for ps
      using h(5) by (simp add: page_ends_breaks numeral_2_eq_2)
    ultimately show ?thesis
      by (simp only: scrape_catalog_def loop_goes_on loop_breaks)
  qed
  have falsy: "item_price L it3 = Inr None"
    if "py_get it3 ''variants'' JNull = Inr (JList (v0 # vs))"
      "py_get v0 ''price'' JNull = Inr pv" "\<not> truthy pv"
    using that by (simp add: item_price_def)
  show ?thesis using c1 c2 e2e falsy by auto
qed

theorem catalog_price_witness:
  "catalog_item toy_lib ''https://shop.example/'' mug_item =
     Inr \<lparr>title = ''Mug'', url = Some ''https://shop.example/products/mug'',
          price = Some (1999 / 100), image_url = None\<rparr> \<and>
   catalog_item toy_lib ''https://shop.example/'' tee_item =
     Inr \<lparr>title = ''Tee'', url = Some ''https://shop.example/products/tee'',
          price = None, image_url = None\<rparr> \<and>
   item_price toy_lib free_item = Inr None \<and>
   scrape_catalog toy_lib two_item_client ''https://shop.example/'' =
     Some [\<lparr>title = ''Mug'', url = Some ''https://shop.example/products/mug'',
            price = Some (1999 / 100), image_url = None\<rparr>,
           \<lparr>title = ''Tee'', url = Some ''https://shop.example/products/tee'',
            price = None, image_url = None\<rparr>]"
proof -
  have 1: "first_variant_price mug_item = Some (JStr ''19.99'')"
    by (simp add: first_variant_price_def mug_item_def)
  have 2: "py_float toy_lib (JStr ''19.99'') = Inr (1999 / 100)"
    by (simp add: toy_lib_def toy_float_def)
  have 3: "first_variant_price tee_item = Some (JStr ''call us'')"
    by (simp add: first_variant_price_def tee_item_def)
  have 4: "py_float toy_lib (JStr ''call us'') =
             Inl (Exc ValueError ''could not convert string to float'')"
    by (simp add: toy_lib_def toy_float_def)
  have 5: "cls (Exc ValueError ''could not convert string to float'') = ValueError" by simp
  have 6: "item_url toy_lib ''https://shop.example/'' mug_item =
             Inr (Some ''https://shop.example/products/mug'')"
    by (simp add: item_url_def mug_item_def absolutize_def format_value_def toy_lib_def
          str_startswith_def)
  have 7: "item_image toy_lib ''https://shop.example/'' mug_item = Inr None"
    by (simp add: item_image_def mug_item_def)
  have 8: "item_title mug_item = Inr ''Mug''"
    by (simp add: item_title_def mug_item_def str_strip_def isspace_def)
  have 9: "item_url toy_lib ''https://shop.example/'' tee_item =
             Inr (Some ''https://shop.example/products/tee'')"
    by (simp add: item_url_def tee_item_def absolutize_def format_value_def toy_lib_def
          str_startswith_def)
  have 10: "item_image toy_lib ''https://shop.example/'' tee_item = Inr None"
    by (simp add: item_image_def tee_item_def)
  have 11: "item_title tee_item = Inr ''Tee''"
    by (simp add: item_title_def tee_item_def str_strip_def isspace_def)
  have 12: "two_item_client
              (urljoin toy_lib ''https://shop.example/'' ''/products.json?limit=250&page=1'') =
            Returns \<lparr>status_code = 200, parsed_html = empty_doc,
              parsed_json = Inr (JDict [(''products'', JList [mug_item, tee_item])])\<rparr>"
    by (simp add: toy_page1 two_item_client_def json_page_def)
  have 13: "py_get free_item ''variants'' JNull = Inr (JList (JDict [(''price'', JInt 0)] # []))"
    by (simp add: free_item_def)
  show ?thesis
    using catalog_price_parsed_or_absent[OF 1 2 3 4 5 6 7 8 9 10 11,
        of free_item "JDict [(''price'', JInt 0)]" "[]" "JInt 0" two_item_client
           "\<lparr>status_code = 200, parsed_html = empty_doc,
             parsed_json = Inr (JDict [(''products'', JList [mug_item, tee_item])])\<rparr>"
           "JDict [(''products'', JList [mug_item, tee_item])]"] 12 13 two_item_client_page2
    by simp
qed

text \<open>
  The claim as it stands fails on an item whose price is the number 0: \<open>float\<close> reads
  it as the number 0, and the Product has no price, since \<open>if v0.get("price")\<close> is
  false for it. And an item whose title is a number gives no Product at all, whatever
  its price.
\<close>

theorem catalog_price_counterexample:
  "py_get free_item ''variants'' JNull = Inr (JList [JDict [(''price'', JInt 0)]]) \<and>
   py_float toy_lib (JInt 0) = Inr 0 \<and>
   catalog_item toy_lib ''https://shop.example/'' free_item =
     Inr \<lparr>title = ''Sample'', url = Some ''https://shop.example/products/sample'',
          price = None, image_url = None\<rparr> \<and>
   catalog_item toy_lib ''https://shop.example/'' numbered_item = Inl (Exc AttributeError [])"
  by code_simp

section \<open>Hero products\<close>
















section \<open>Contact\<close>

lemma sorted_or_none_cases:
  "sorted_or_none xs = None \<or>
   (\<exists>ys. sorted_or_none xs = Some (StrList ys) \<and> ys \<noteq> [] \<and> sorted_wrt (<) ys \<and> distinct ys \<and>
         set ys = set xs)"
proof (cases "sorted_list_of_set (set xs)")
  case Nil
  then show ?thesis by (simp add: sorted_or_none_def)
next
  case (Cons y ys)
  have "sorted_wrt (<) (sorted_list_of_set (set xs))" by simp
  moreover have "distinct (sorted_list_of_set (set xs))" by simp
  moreover have "set (sorted_list_of_set (set xs)) = set xs" by simp
  ultimately show ?thesis using Cons by (simp add: sorted_or_none_def)
qed

lemma contact_loop_first:
  "(\<forall>p\<in>set pre. fetch_html L client base p = Inr None) \<Longrightarrow>
   fetch_html L client base path = Inr (Some soup) \<Longrightarrow>
   contact_loop L client base (pre @ path # post) =
     Inr (fst (contact_page L soup), snd (contact_page L soup), Some (urljoin L base path))"
  by (induction pre) (simp_all split: prod.split)

text \<open>
  Claim C6. Whenever \<open>scrape_contact\<close> returns its dictionary, the value under
  \<open>emails\<close> and the value under \<open>phones\<close> are each either \<open>None\<close> or a list of
  strings that is not empty, strictly sorted and free of duplicates. And the probing
  stops at the first path that resolves: when the paths before it do not resolve, the
  dictionary is made from that page and its URL alone, whatever the later paths
  would answer.
\<close>

theorem scrape_contact_sorted_or_absent:
  assumes "scrape_contact L client base = Inr d"
  shows "(d ''emails'' = Some None \<or>
          (\<exists>xs. d ''emails'' = Some (Some (StrList xs)) \<and> xs \<noteq> [] \<and> sorted_wrt (<) xs \<and> distinct xs)) \<and>
         (d ''phones'' = Some None \<or>
          (\<exists>xs. d ''phones'' = Some (Some (StrList xs)) \<and> xs \<noteq> [] \<and> sorted_wrt (<) xs \<and> distinct xs)) \<and>
         (CONTACT_PATHS = pre @ path # post \<and>
          (\<forall>p\<in>set pre. fetch_html L client base p = Inr None) \<and>
          fetch_html L client base path = Inr (Some soup) \<longrightarrow>
          d = [''emails'' \<mapsto> sorted_or_none (fst (contact_page L soup)),
               ''phones'' \<mapsto> sorted_or_none (snd (contact_page L soup)),
               ''contact_page'' \<mapsto> Some (Str (urljoin L base path))])"
proof -
  from assms obtain emails phones page_url where
    run: "contact_loop L client base CONTACT_PATHS = Inr (emails, phones, page_url)"
    and d: "d = [''emails'' \<mapsto> sorted_or_none emails, ''phones'' \<mapsto> sorted_or_none phones,
                 ''contact_page'' \<mapsto> map_option Str page_url]"
    by (auto simp: scrape_contact_def split: sum.splits)
  have e: "d ''emails'' = Some (sorted_or_none emails)" by (simp add: d)
  have p: "d ''phones'' = Some (sorted_or_none phones)" by (simp add: d)
  have 1: "d ''emails'' = Some None \<or>
          (\<exists>xs. d ''emails'' = Some (Some (StrList xs)) \<and> xs \<noteq> [] \<and> sorted_wrt (<) xs \<and> distinct xs)"
    using sorted_or_none_cases[of emails] unfolding e by auto
  have 2: "d ''phones'' = Some None \<or>
          (\<exists>xs. d ''phones'' = Some (Some (StrList xs)) \<and> xs \<noteq> [] \<and> sorted_wrt (<) xs \<and> distinct xs)"
    using sorted_or_none_cases[of phones] unfolding p by auto
  have 3: "d = [''emails'' \<mapsto> sorted_or_none (fst (contact_page L soup)),
               ''phones'' \<mapsto> sorted_or_none (snd (contact_page L soup)),
               ''contact_page'' \<mapsto> Some (Str (urljoin L base path))]"
    if "CONTACT_PATHS = pre @ path # post"
      "\<forall>p\<in>set pre. fetch_html L client base p = Inr None"
      "fetch_html L client base path = Inr (Some soup)"
    using contact_loop_first[OF that(2,3), of post] run d unfolding that(1) by simp
  show ?thesis using 1 2 3 by blast
qed

lemma contact_run:
  "contact_loop toy_lib contact_client ''https://shop.example/'' CONTACT_PATHS =
     Inr ([''sales@shop.example'', ''help@shop.example'', ''help@shop.example''], [],
          Some ''https://shop.example/pages/contact-us'')"
  by code_simp

lemma contact_sorted:
  "sorted_or_none [''sales@shop.example'', ''help@shop.example'', ''help@shop.example''] =
     Some (StrList [''help@shop.example'', ''sales@shop.example''])"
  "sorted_or_none [] = None"
  by code_simp+

theorem scrape_contact_witness:
  "\<exists>d. scrape_contact toy_lib contact_client ''https://shop.example/'' = Inr d \<and>
       d ''emails'' = Some (Some (StrList [''help@shop.example'', ''sales@shop.example''])) \<and>
       d ''phones'' = Some None \<and>
       d ''contact_page'' = Some (Some (Str ''https://shop.example/pages/contact-us'')) \<and>
       d = [''emails'' \<mapsto> sorted_or_none (fst (contact_page toy_lib contact_doc)),
            ''phones'' \<mapsto> sorted_or_none (snd (contact_page toy_lib contact_doc)),
            ''contact_page'' \<mapsto>
              Some (Str (urljoin toy_lib ''https://shop.example/'' ''/pages/contact-us''))]"
proof -
  let ?d = "[''emails'' \<mapsto> Some (StrList [''help@shop.example'', ''sales@shop.example'']),
             ''phones'' \<mapsto> None,
             ''contact_page'' \<mapsto> Some (Str ''https://shop.example/pages/contact-us'')]"
  have run: "scrape_contact toy_lib contact_client ''https://shop.example/'' = Inr ?d"
    by (simp add: scrape_contact_def contact_run contact_sorted)
  have paths: "CONTACT_PATHS = [''/pages/contact''] @ ''/pages/contact-us'' # [''/contact'']"
    by (simp add: CONTACT_PATHS_def)
  have f1: "\<forall>p\<in>set [''/pages/contact'']. fetch_html toy_lib contact_client ''https://shop.example/'' p = Inr None"
    by code_simp
  have f2: "fetch_html toy_lib contact_client ''https://shop.example/'' ''/pages/contact-us'' = Inr (Some contact_doc)"
    by code_simp
  from scrape_contact_sorted_or_absent[OF run, of "[''/pages/contact'']" "''/pages/contact-us''"
      "[''/contact'']" contact_doc] paths f1 f2
  have eq: "?d = [''emails'' \<mapsto> sorted_or_none (fst (contact_page toy_lib contact_doc)),
               ''phones'' \<mapsto> sorted_or_none (snd (contact_page toy_lib contact_doc)),
               ''contact_page'' \<mapsto> Some (Str (urljoin toy_lib ''https://shop.example/'' ''/pages/contact-us''))]"
    by blast
  have a: "?d ''emails'' = Some (Some (StrList [''help@shop.example'', ''sales@shop.example'']))"
    and b: "?d ''phones'' = Some None"
    and c: "?d ''contact_page'' = Some (Some (Str ''https://shop.example/pages/contact-us''))"
    by simp_all
  show ?thesis using run a b c eq by blast
qed

section \<open>FAQs\<close>








section \<open>Important links\<close>

lemma links_loop_last:
  "links_loop L client base paths out = Inr d \<Longrightarrow>
   d key = (case rev (resolving L client base paths key) of
              [] \<Rightarrow> out key
            | u # us \<Rightarrow> Some (Some u))"
proof (induction paths arbitrary: out)
  case Nil
  then show ?case by (simp add: resolving_def)
next
  case (Cons pk rest)
  obtain path k where pk: "pk = (path, k)" by (cases pk)
  show ?case
  proof (cases "fetch_html L client base path")
    case (Inl e)
    with Cons.prems pk show ?thesis by simp
  next
    case (Inr r)
    show ?thesis
    proof (cases r)
      case None
      with Inr Cons.prems pk have "links_loop L client base rest out = Inr d" by simp
      from Cons.IH[OF this] Inr None pk show ?thesis
        by (simp add: resolving_def resolves_def)
    next
      case (Some soup)
      let ?out = "out(k \<mapsto> Some (urljoin L base path))"
      from Some Inr Cons.prems pk have "links_loop L client base rest ?out = Inr d" by simp
      from Cons.IH[OF this]
      have IH: "d key = (case rev (resolving L client base rest key) of
              [] \<Rightarrow> ?out key | u # us \<Rightarrow> Some (Some u))" .
      show ?thesis
      proof (cases "k = key")
        case False
        then have "resolving L client base (pk # rest) key = resolving L client base rest key"
          using pk by (simp add: resolving_def)
        with IH False show ?thesis by (simp split: list.split)
      next
        case True
        then have r: "resolving L client base (pk # rest) key =
                      urljoin L base path # resolving L client base rest key"
          using Inr Some pk by (simp add: resolving_def resolves_def)
        show ?thesis
        proof (cases "rev (resolving L client base rest key)")
          case Nil
          with IH True r show ?thesis by simp
        next
          case (Cons u us)
          with IH True r show ?thesis by simp
        qed
      qed
    qed
  qed
qed

text \<open>
  Claim C8, amended. \<open>scrape_important_links\<close> probes every path of its fixed list,
  in order, and for each of the keys \<open>order_tracking\<close>, \<open>contact_us\<close> and \<open>blogs\<close>
  the recorded URL is that of the last path of the key that resolves (a later
  resolving path replaces an earlier one), and \<open>None\<close> when no path of the key resolves.
\<close>

theorem important_links_last_match:
  assumes "scrape_important_links L client base = Inr d"
    and "key \<in> {''order_tracking'', ''contact_us'', ''blogs''}"
  shows "d key = Some (last_resolving L client base key)"
proof -
  from assms(1) have "links_loop L client base LINK_PATHS
       [''order_tracking'' \<mapsto> None, ''contact_us'' \<mapsto> None, ''blogs'' \<mapsto> None] = Inr d"
    by (simp add: scrape_important_links_def)
  from links_loop_last[OF this, of key] assms(2) show ?thesis
    by (auto simp: last_resolving_def split: list.splits)
qed

lemma links_run:
  "map_sum id (\<lambda>d. (d ''order_tracking'', d ''contact_us'', d ''blogs''))
     (scrape_important_links toy_lib links_client ''https://shop.example/'') =
   Inr (Some (Some ''https://shop.example/pages/track-order''), Some None,
        Some (Some ''https://shop.example/blogs/news''))"
  by code_simp

text \<open>
  The claim as it stands fails when two paths of one key resolve: the first of them is
  \<open>/pages/track\<close>, and the program records \<open>/pages/track-order\<close>.
\<close>

theorem important_links_counterexample:
  "map_sum id (\<lambda>d. d ''order_tracking'')
     (scrape_important_links toy_lib links_client ''https://shop.example/'') =
     Inr (Some (Some ''https://shop.example/pages/track-order'')) \<and>
   first_resolving toy_lib links_client ''https://shop.example/'' ''order_tracking'' =
     Some ''https://shop.example/pages/track''"
  by code_simp

theorem important_links_witness:
  "\<exists>d. scrape_important_links toy_lib links_client ''https://shop.example/'' = Inr d \<and>
       d ''order_tracking'' = Some (last_resolving toy_lib links_client ''https://shop.example/'' ''order_tracking'') \<and>
       last_resolving toy_lib links_client ''https://shop.example/'' ''order_tracking'' =
         Some ''https://shop.example/pages/track-order''"
proof -
  obtain d where d: "scrape_important_links toy_lib links_client ''https://shop.example/'' = Inr d"
    using links_run by (cases "scrape_important_links toy_lib links_client ''https://shop.example/''") auto
  have k: "''order_tracking'' \<in> {''order_tracking'', ''contact_us'', ''blogs''}" by simp
  have l: "last_resolving toy_lib links_client ''https://shop.example/'' ''order_tracking'' =
         Some ''https://shop.example/pages/track-order''" by code_simp
  from important_links_last_match[OF d k] d l show ?thesis by blast
qed

section \<open>The aggregate\<close>

lemma get_brand_context_parts:
  assumes "get_brand_context L client u = Some (Inr ctx)"
  shows "store_url ctx = (if str_endswith u ''/'' then u else u @ ''/'')"
    and "scrape_contact L client (store_url ctx) = Inr (contact ctx)"
    and "scrape_important_links L client (store_url ctx) = Inr (important_links ctx)"
    and "scrape_catalog L client (store_url ctx) = Some (catalog ctx)"
  using assms
  by (auto simp: get_brand_context_def Let_def raise_def split: sum.splits option.splits if_splits)

lemma scrape_contact_dom:
  assumes "scrape_contact L client base = Inr d"
  shows "dom d = {''emails'', ''phones'', ''contact_page''}"
proof -
  from assms obtain e p c where
    "d = [''emails'' \<mapsto> e, ''phones'' \<mapsto> p, ''contact_page'' \<mapsto> (c :: contact_value option)]"
    by (auto simp: scrape_contact_def split: sum.splits)
  then have "dom d = {''contact_page'', ''phones'', ''emails''}" by simp
  then show ?thesis by (simp add: insert_commute)
qed

lemma links_loop_dom:
  "links_loop L client base paths out = Inr d \<Longrightarrow> snd ` set paths \<subseteq> dom out \<Longrightarrow> dom d = dom out"
proof (induction paths arbitrary: out)
  case Nil
  then show ?case by simp
next
  case (Cons pk rest)
  obtain path k where pk: "pk = (path, k)" by (cases pk)
  from Cons.prems(2) pk have k: "k \<in> dom out" and rest: "snd ` set rest \<subseteq> dom out" by auto
  show ?case
  proof (cases "fetch_html L client base path")
    case (Inl e)
    with Cons.prems(1) pk show ?thesis by simp
  next
    case (Inr r)
    show ?thesis
    proof (cases r)
      case None
      with Inr Cons.prems(1) pk have "links_loop L client base rest out = Inr d" by simp
      from Cons.IH[OF this rest] show ?thesis .
    next
      case (Some soup)
      let ?out = "out(k \<mapsto> Some (urljoin L base path))"
      from Some Inr Cons.prems(1) pk have loop: "links_loop L client base rest ?out = Inr d" by simp
      have same: "dom ?out = dom out" using k by auto
      have "snd ` set rest \<subseteq> dom ?out" using rest unfolding same .
      from Cons.IH[OF loop this] show ?thesis unfolding same .
    qed
  qed
qed

lemma scrape_important_links_dom:
  assumes "scrape_important_links L client base = Inr d"
  shows "dom d = {''order_tracking'', ''contact_us'', ''blogs''}"
proof -
  let ?out = "[''order_tracking'' \<mapsto> None, ''contact_us'' \<mapsto> None, ''blogs'' \<mapsto> (None :: string option)]"
  from assms have "links_loop L client base LINK_PATHS ?out = Inr d"
    by (simp add: scrape_important_links_def)
  moreover have "snd ` set LINK_PATHS \<subseteq> dom ?out" by (simp add: LINK_PATHS_def)
  ultimately have "dom d = dom ?out" by (rule links_loop_dom)
  then have "dom d = {''blogs'', ''contact_us'', ''order_tracking''}" by simp
  then show ?thesis by (simp add: insert_commute)
qed

lemma contact_loop_none:
  "(\<forall>p\<in>set paths. fetch_html L client base p = Inr None) \<Longrightarrow>
   contact_loop L client base paths = Inr ([], [], None)"
  by (induction paths) simp_all

lemma links_loop_none:
  "(\<forall>pk\<in>set paths. fetch_html L client base (fst pk) = Inr None) \<Longrightarrow>
   links_loop L client base paths out = Inr out"
  by (induction paths arbitrary: out) auto

lemma sorted_or_none_Nil: "sorted_or_none [] = None"
  by (simp add: sorted_or_none_def)

lemma scrape_contact_none:
  assumes "\<forall>p\<in>set PROBED_PATHS. fetch_html L client base p = Inr None"
  shows "scrape_contact L client base =
           Inr [''emails'' \<mapsto> None, ''phones'' \<mapsto> None, ''contact_page'' \<mapsto> None]"
proof -
  from assms have "\<forall>p\<in>set CONTACT_PATHS. fetch_html L client base p = Inr None"
    by (simp add: PROBED_PATHS_def)
  then show ?thesis
    by (simp add: scrape_contact_def contact_loop_none sorted_or_none_Nil)
qed

lemma scrape_important_links_none:
  assumes "\<forall>p\<in>set PROBED_PATHS. fetch_html L client base p = Inr None"
  shows "scrape_important_links L client base =
           Inr [''order_tracking'' \<mapsto> None, ''contact_us'' \<mapsto> None, ''blogs'' \<mapsto> None]"
proof -
  from assms have "\<forall>pk\<in>set LINK_PATHS. fetch_html L client base (fst pk) = Inr None"
    by (simp add: PROBED_PATHS_def)
  then show ?thesis
    by (simp add: scrape_important_links_def links_loop_none)
qed

lemma policies_loop_none:
  "(\<forall>pp\<in>set paths. fetch_html L client base (snd pp) = Inr None) \<Longrightarrow>
   policies_loop L client base paths out = Inr out"
  by (induction paths arbitrary: out) auto

lemma faqs_loop_none:
  "(\<forall>p\<in>set paths. fetch_html L client base p = Inr None) \<Longrightarrow>
   faqs_loop L client base paths = Inr []"
  by (induction paths) simp_all

lemma about_loop_none:
  "(\<forall>p\<in>set paths. fetch_html L client base p = Inr None) \<Longrightarrow>
   about_loop L client base paths = Inr None"
  by (induction paths) simp_all

lemma get_brand_context_feed_only:
  assumes none: "\<forall>p\<in>set PROBED_PATHS. fetch_html L client base p = Inr None"
    and slash: "str_endswith base ''/''"
    and cat: "scrape_catalog L client base = Some cat"
    and valid: "is_http_url L base"
  shows "get_brand_context L client base =
           Some (Inr \<lparr>store_url = base, brand_name = None, hero_products = [], catalog = cat,
                       policies = [], faqs = [], social = Map.empty,
                       contact = [''emails'' \<mapsto> None, ''phones'' \<mapsto> None, ''contact_page'' \<mapsto> None],
                       about_text = None,
                       important_links =
                         [''order_tracking'' \<mapsto> None, ''contact_us'' \<mapsto> None, ''blogs'' \<mapsto> None],
                       fetched_at = utcnow_isoformat L @ ''Z''\<rparr>)"
proof -
  have home: "fetch_html L client base ''/'' = Inr None"
    using none by (simp add: PROBED_PATHS_def)
  have pol: "scrape_policies L client base = Inr []"
    unfolding scrape_policies_def
    by (rule policies_loop_none) (use none in \<open>simp add: PROBED_PATHS_def\<close>)
  have fq: "scrape_faqs L client base = Inr []"
    unfolding scrape_faqs_def
    by (rule faqs_loop_none) (use none in \<open>simp add: PROBED_PATHS_def\<close>)
  have ab: "scrape_about L client base = Inr None"
    unfolding scrape_about_def
    by (rule about_loop_none) (use none in \<open>simp add: PROBED_PATHS_def\<close>)
  show ?thesis
    using home pol fq ab cat valid slash scrape_contact_none[OF none]
      scrape_important_links_none[OF none]
    by (simp add: get_brand_context_def scrape_brand_name_def scrape_hero_products_def
          scrape_social_def)
qed

lemma probed_paths_dead:
  "\<forall>p\<in>set PROBED_PATHS. fetch_html L dead_client base p = Inr None"
  by (simp add: fetch_html_def dead_client_def not_found_def)

lemma dead_catalog: "scrape_catalog L dead_client base = Some []"
proof -
  have "catalog_page L dead_client base 1 [] = ([], False)"
    by (simp add: catalog_page_def dead_client_def not_found_def)
  then show ?thesis unfolding scrape_catalog_def by (rule loop_breaks)
qed

lemma toy_base_ok:
  "str_endswith ''https://shop.example/'' ''/''" "is_http_url toy_lib ''https://shop.example/''"
  "str_endswith ''https://rival.example/'' ''/''" "is_http_url toy_lib ''https://rival.example/''"
  by code_simp+

lemma dead_context:
  "get_brand_context toy_lib dead_client ''https://shop.example/'' =
     Some (Inr \<lparr>store_url = ''https://shop.example/'', brand_name = None, hero_products = [],
                 catalog = [], policies = [], faqs = [], social = Map.empty,
                 contact = [''emails'' \<mapsto> None, ''phones'' \<mapsto> None, ''contact_page'' \<mapsto> None],
                 about_text = None,
                 important_links =
                   [''order_tracking'' \<mapsto> None, ''contact_us'' \<mapsto> None, ''blogs'' \<mapsto> None],
                 fetched_at = utcnow_isoformat toy_lib @ ''Z''\<rparr>)"
  by (rule get_brand_context_feed_only[OF probed_paths_dead toy_base_ok(1) dead_catalog toy_base_ok(2)])

lemma two_item_pages:
  "catalog_page toy_lib two_item_client ''https://shop.example/'' 1 [] =
     ([\<lparr>title = ''Mug'', url = Some ''https://shop.example/products/mug'',
        price = Some (1999 / 100), image_url = None\<rparr>,
       \<lparr>title = ''Tee'', url = Some ''https://shop.example/products/tee'',
        price = None, image_url = None\<rparr>], True)"
  by code_simp

text \<open>
  Claim C10. Every BrandContext that \<open>get_brand_context\<close> produces has a contact
  mapping with exactly the keys \<open>emails\<close>, \<open>phones\<close> and \<open>contact_page\<close> and an
  important-links mapping with exactly the keys \<open>order_tracking\<close>, \<open>contact_us\<close> and
  \<open>blogs\<close>. This holds also when no probed page resolves: the six keys are then
  present with the value \<open>None\<close>.
\<close>

theorem brand_context_fixed_keys:
  assumes "get_brand_context L client u = Some (Inr ctx)"
  shows "dom (contact ctx) = {''emails'', ''phones'', ''contact_page''} \<and>
         dom (important_links ctx) = {''order_tracking'', ''contact_us'', ''blogs''} \<and>
         ((\<forall>p\<in>set PROBED_PATHS. fetch_html L client (store_url ctx) p = Inr None) \<longrightarrow>
            contact ctx = [''emails'' \<mapsto> None, ''phones'' \<mapsto> None, ''contact_page'' \<mapsto> None] \<and>
            important_links ctx =
              [''order_tracking'' \<mapsto> None, ''contact_us'' \<mapsto> None, ''blogs'' \<mapsto> None])"
proof -
  note parts = get_brand_context_parts[OF assms]
  have 1: "dom (contact ctx) = {''emails'', ''phones'', ''contact_page''}"
    using parts(2) by (rule scrape_contact_dom)
  have 2: "dom (important_links ctx) = {''order_tracking'', ''contact_us'', ''blogs''}"
    using parts(3) by (rule scrape_important_links_dom)
  have 3: "contact ctx = [''emails'' \<mapsto> None, ''phones'' \<mapsto> None, ''contact_page'' \<mapsto> None] \<and>
            important_links ctx =
              [''order_tracking'' \<mapsto> None, ''contact_us'' \<mapsto> None, ''blogs'' \<mapsto> None]"
    if "\<forall>p\<in>set PROBED_PATHS. fetch_html L client (store_url ctx) p = Inr None"
    using scrape_contact_none[OF that] scrape_important_links_none[OF that] parts(2,3) by simp
  show ?thesis using 1 2 3 by blast
qed

theorem brand_context_fixed_keys_witness:
  "\<exists>ctx. get_brand_context toy_lib dead_client ''https://shop.example/'' = Some (Inr ctx) \<and>
     dom (contact ctx) = {''emails'', ''phones'', ''contact_page''} \<and>
     dom (important_links ctx) = {''order_tracking'', ''contact_us'', ''blogs''} \<and>
     contact ctx = [''emails'' \<mapsto> None, ''phones'' \<mapsto> None, ''contact_page'' \<mapsto> None] \<and>
     important_links ctx =
       [''order_tracking'' \<mapsto> None, ''contact_us'' \<mapsto> None, ''blogs'' \<mapsto> None]"
proof -
  obtain ctx where ctx: "get_brand_context toy_lib dead_client ''https://shop.example/'' = Some (Inr ctx)"
    using dead_context by simp
  note keys = brand_context_fixed_keys[OF ctx]
  have none: "\<forall>p\<in>set PROBED_PATHS. fetch_html toy_lib dead_client (store_url ctx) p = Inr None"
    by (rule probed_paths_dead)
  have d1: "dom (contact ctx) = {''emails'', ''phones'', ''contact_page''}"
    by (rule conjunct1[OF keys])
  have d2: "dom (important_links ctx) = {''order_tracking'', ''contact_us'', ''blogs''}"
    by (rule conjunct1[OF conjunct2[OF keys]])
  have r: "contact ctx = [''emails'' \<mapsto> None, ''phones'' \<mapsto> None, ''contact_page'' \<mapsto> None] \<and>
           important_links ctx =
             [''order_tracking'' \<mapsto> None, ''contact_us'' \<mapsto> None, ''blogs'' \<mapsto> None]"
    by (rule mp[OF conjunct2[OF conjunct2[OF keys]] none])
  show ?thesis
    by (intro exI[of _ ctx] conjI) (rule ctx d1 d2 conjunct1[OF r] conjunct2[OF r])+
qed

text \<open>
  Claim C1. For every aggregation pass that produces a BrandContext: when its catalog
  and its hero products are both empty, \<open>/insights\<close> answers with the HTTP status 401;
  when one of the two is not empty, \<open>/insights\<close> returns the BrandContext.
\<close>

theorem insights_gate:
  assumes "get_brand_context L client u = Some (Inr ctx)"
  shows "(catalog ctx = [] \<and> hero_products ctx = [] \<longrightarrow>
            insights L client u = Some (Inl NOT_FOUND) \<and> http_status NOT_FOUND = 401) \<and>
         (catalog ctx \<noteq> [] \<or> hero_products ctx \<noteq> [] \<longrightarrow> insights L client u = Some (Inr ctx))"
  using assms by (auto simp: insights_def NOT_FOUND_def)

lemma two_item_catalog_run:
  "scrape_catalog toy_lib two_item_client ''https://shop.example/'' =
     Some [\<lparr>title = ''Mug'', url = Some ''https://shop.example/products/mug'',
            price = Some (1999 / 100), image_url = None\<rparr>,
           \<lparr>title = ''Tee'', url = Some ''https://shop.example/products/tee'',
            price = None, image_url = None\<rparr>]"
proof -
  have "catalog_page toy_lib two_item_client ''https://shop.example/'' (Suc 1) ps = (ps, False)" for ps
    using two_item_client_page2 by (simp add: page_ends_breaks numeral_2_eq_2)
  with two_item_pages show ?thesis
    by (simp only: scrape_catalog_def loop_goes_on loop_breaks)
qed

lemma probed_paths_two_item:
  "\<forall>p\<in>set PROBED_PATHS. fetch_html toy_lib two_item_client ''https://shop.example/'' p = Inr None"
  by code_simp

theorem insights_gate_witness:
  "insights toy_lib dead_client ''https://shop.example/'' = Some (Inl NOT_FOUND) \<and>
   http_status NOT_FOUND = 401 \<and>
   (\<exists>ctx. insights toy_lib two_item_client ''https://shop.example/'' = Some (Inr ctx) \<and>
          map title (catalog ctx) = [''Mug'', ''Tee''] \<and> hero_products ctx = [])"
proof -
  obtain dead where dead: "get_brand_context toy_lib dead_client ''https://shop.example/'' = Some (Inr dead)"
    and "catalog dead = []" "hero_products dead = []"
    using dead_context by simp
  with insights_gate[OF dead]
  have 1: "insights toy_lib dead_client ''https://shop.example/'' = Some (Inl NOT_FOUND)"
    and 2: "http_status NOT_FOUND = 401" by simp_all
  obtain ctx where ctx: "get_brand_context toy_lib two_item_client ''https://shop.example/'' = Some (Inr ctx)"
    and c: "map title (catalog ctx) = [''Mug'', ''Tee'']" and h: "hero_products ctx = []"
    using get_brand_context_feed_only[OF probed_paths_two_item toy_base_ok(1) two_item_catalog_run toy_base_ok(2)]
    by simp
  from c have "catalog ctx \<noteq> []" by auto
  with insights_gate[OF ctx]
  have "insights toy_lib two_item_client ''https://shop.example/'' = Some (Inr ctx)" by simp
  with 1 2 c h show ?thesis by auto
qed

section \<open>Competitors\<close>

lemma slice_to_length: "0 \<le> k \<Longrightarrow> length (slice_to xs k) \<le> nat k"
  by (simp add: slice_to_def)

lemma competitor_loop_kept:
  "competitor_loop L client cus acc = Some res \<Longrightarrow>
   length res \<le> length acc + length cus \<and>
   set res \<subseteq> set acc \<union> {c. catalog c \<noteq> [] \<or> hero_products c \<noteq> []}"
proof (induction cus arbitrary: acc)
  case Nil
  then show ?case by simp
next
  case (Cons cu cus)
  show ?case
  proof (cases "get_brand_context L client cu")
    case None
    with Cons.prems show ?thesis by simp
  next
    case (Some r)
    show ?thesis
    proof (cases r)
      case (Inl e)
      with Some Cons.prems have "competitor_loop L client cus acc = Some res" by simp
      from Cons.IH[OF this] show ?thesis by simp
    next
      case (Inr cctx)
      show ?thesis
      proof (cases "catalog cctx \<noteq> [] \<or> hero_products cctx \<noteq> []")
        case True
        with Inr Some Cons.prems have "competitor_loop L client cus (acc @ [cctx]) = Some res"
          by auto
        from Cons.IH[OF this] True show ?thesis by auto
      next
        case False
        with Inr Some Cons.prems have "competitor_loop L client cus acc = Some res" by auto
        from Cons.IH[OF this] show ?thesis by simp
      qed
    qed
  qed
qed

text \<open>
  Claim C2. For every call of \<open>/competitors\<close> with a limit \<open>n\<close> between 1 and 5 that
  returns a result, the list of competitors has at most \<open>n\<close> entries, and every entry
  has a catalog or a list of hero products that is not empty.
\<close>

theorem competitors_at_most_limit:
  assumes "1 \<le> n" and "n \<le> 5"
    and "competitors L client u n = Some (Inr res)"
  shows "length (competitor_contexts res) \<le> nat n \<and>
         (\<forall>c\<in>set (competitor_contexts res). catalog c \<noteq> [] \<or> hero_products c \<noteq> [])"
proof -
  from assms(3) obtain brand_ctx cs where
    loop: "competitor_loop L client
             (find_competitor_candidates L client (store_url brand_ctx) (brand_name brand_ctx) n) [] =
           Some cs"
    and res: "res = \<lparr>brand = brand_ctx, competitor_contexts = cs\<rparr>"
    by (auto simp: competitors_def split: option.splits sum.splits if_splits)
  have "length (find_competitor_candidates L client (store_url brand_ctx) (brand_name brand_ctx) n) \<le> nat n"
    unfolding find_competitor_candidates_def using assms(1) by (intro slice_to_length) simp
  with competitor_loop_kept[OF loop] show ?thesis unfolding res by auto
qed

lemma market_shop_paths:
  "\<forall>p\<in>set PROBED_PATHS. fetch_html toy_lib market_client ''https://shop.example/'' p = Inr None"
  by code_simp

lemma market_rival_paths:
  "\<forall>p\<in>set PROBED_PATHS. fetch_html toy_lib market_client ''https://rival.example/'' p = Inr None"
  by code_simp

lemma market_pages:
  "catalog_page toy_lib market_client ''https://shop.example/'' 1 [] =
     ([\<lparr>title = ''Mug'', url = Some ''https://shop.example/products/mug'',
        price = Some (1999 / 100), image_url = None\<rparr>,
       \<lparr>title = ''Tee'', url = Some ''https://shop.example/products/tee'',
        price = None, image_url = None\<rparr>], True)"
  "catalog_page toy_lib market_client ''https://rival.example/'' 1 [] =
     ([\<lparr>title = ''Mug'', url = Some ''https://rival.example/products/mug'',
        price = Some (1999 / 100), image_url = None\<rparr>], True)"
  "page_ends toy_lib market_client ''https://shop.example/'' 2"
  "page_ends toy_lib market_client ''https://rival.example/'' 2"
  by code_simp+

lemma market_catalogs:
  "scrape_catalog toy_lib market_client ''https://shop.example/'' =
     Some [\<lparr>title = ''Mug'', url = Some ''https://shop.example/products/mug'',
            price = Some (1999 / 100), image_url = None\<rparr>,
           \<lparr>title = ''Tee'', url = Some ''https://shop.example/products/tee'',
            price = None, image_url = None\<rparr>]"
  "scrape_catalog toy_lib market_client ''https://rival.example/'' =
     Some [\<lparr>title = ''Mug'', url = Some ''https://rival.example/products/mug'',
            price = Some (1999 / 100), image_url = None\<rparr>]"
proof -
  have "catalog_page toy_lib market_client ''https://shop.example/'' (Suc 1) ps = (ps, False)"
    and "catalog_page toy_lib market_client ''https://rival.example/'' (Suc 1) ps = (ps, False)" for ps
    using market_pages(3,4) by (simp_all add: page_ends_breaks numeral_2_eq_2)
  with market_pages(1,2)
  show "scrape_catalog toy_lib market_client ''https://shop.example/'' =
     Some [\<lparr>title = ''Mug'', url = Some ''https://shop.example/products/mug'',
            price = Some (1999 / 100), image_url = None\<rparr>,
           \<lparr>title = ''Tee'', url = Some ''https://shop.example/products/tee'',
            price = None, image_url = None\<rparr>]"
    and "scrape_catalog toy_lib market_client ''https://rival.example/'' =
     Some [\<lparr>title = ''Mug'', url = Some ''https://rival.example/products/mug'',
            price = Some (1999 / 100), image_url = None\<rparr>]"
    by (simp_all only: scrape_catalog_def loop_goes_on loop_breaks)
qed

lemma market_candidates:
  "find_competitor_candidates toy_lib market_client ''https://shop.example/'' None 2 =
     [''https://rival.example/'']"
  by code_simp

theorem competitors_witness:
  "(1::int) \<le> 2 \<and> (2::int) \<le> 5 \<and>
   (\<exists>res. competitors toy_lib market_client ''https://shop.example/'' 2 = Some (Inr res) \<and>
      map store_url (competitor_contexts res) = [''https://rival.example/''] \<and>
      map (\<lambda>c. map title (catalog c)) (competitor_contexts res) = [[''Mug'']] \<and>
      length (competitor_contexts res) \<le> nat 2)"
proof -
  note shop = get_brand_context_feed_only[OF market_shop_paths toy_base_ok(1) market_catalogs(1) toy_base_ok(2)]
  note rival = get_brand_context_feed_only[OF market_rival_paths toy_base_ok(3) market_catalogs(2) toy_base_ok(4)]
  obtain res where res: "competitors toy_lib market_client ''https://shop.example/'' 2 = Some (Inr res)"
    and u: "map store_url (competitor_contexts res) = [''https://rival.example/'']"
    and c: "map (\<lambda>c. map title (catalog c)) (competitor_contexts res) = [[''Mug'']]"
    by (simp add: competitors_def shop rival market_candidates)
  have n: "(1::int) \<le> 2" "(2::int) \<le> 5" by simp_all
  from competitors_at_most_limit[OF n res]
  have "length (competitor_contexts res) \<le> nat 2" by (rule conjunct1)
  with n res u c show ?thesis by (intro conjI exI[of _ res]) assumption+
qed

text \<open>
  The list of candidates. Its hosts are pairwise different; it does not hold the
  origin's own host, when \<open>urlparse\<close> reads from a normalized root the host it was
  built from; and it has at most \<open>4 * limit + 2\<close> entries, two more than the bound
  the inner loop tests for.
\<close>

lemma scan_anchors_step:
  "scan_anchors L sh n (href # hrefs) (cands, seen) =
     (if \<not> str_startswith href ''http'' \<or> netloc (urlparse L href) = [] \<or>
         netloc (urlparse L href) = sh \<or> netloc (urlparse L (normalize_root L href)) \<in> seen
      then scan_anchors L sh n hrefs (cands, seen)
      else if 4 * n \<le> int (length cands) + 1
      then (cands @ [normalize_root L href],
            insert (netloc (urlparse L (normalize_root L href))) seen)
      else scan_anchors L sh n hrefs
             (cands @ [normalize_root L href],
              insert (netloc (urlparse L (normalize_root L href))) seen))"
  by (simp add: Let_def mult.commute)

lemma search_loop_step:
  "search_loop L client sh n (q # qs) st =
     search_loop L client sh n qs
       (case client (''https://duckduckgo.com/html/?q='' @ quote_plus L q) of
          Raises e \<Rightarrow> st
        | Returns r \<Rightarrow>
            if status_code r \<noteq> 200 then st
            else scan_anchors L sh n (hrefs_of (parsed_html r)) st)"
  by (simp split: reply.split)

lemma scan_anchors_length:
  "int (length (fst (scan_anchors L sh n hrefs (cands, seen)))) \<le> max (int (length cands) + 1) (4 * n)"
proof (induction hrefs arbitrary: cands seen)
  case Nil
  show ?case by simp
next
  case (Cons href hrefs)
  let ?st = "(cands @ [normalize_root L href],
              insert (netloc (urlparse L (normalize_root L href))) seen)"
  show ?case
  proof (cases "\<not> str_startswith href ''http'' \<or> netloc (urlparse L href) = [] \<or>
         netloc (urlparse L href) = sh \<or> netloc (urlparse L (normalize_root L href)) \<in> seen")
    case True
    then have "scan_anchors L sh n (href # hrefs) (cands, seen) = scan_anchors L sh n hrefs (cands, seen)"
      by (simp only: scan_anchors_step if_True)
    with Cons.IH[of cands seen] show ?thesis by simp
  next
    case new: False
    show ?thesis
    proof (cases "4 * n \<le> int (length cands) + 1")
      case True
      with new have "scan_anchors L sh n (href # hrefs) (cands, seen) = ?st"
        by (simp only: scan_anchors_step if_True if_False)
      then show ?thesis by simp
    next
      case False
      with new have "scan_anchors L sh n (href # hrefs) (cands, seen) = scan_anchors L sh n hrefs ?st"
        by (simp only: scan_anchors_step if_False)
      with Cons.IH[of "cands @ [normalize_root L href]"
          "insert (netloc (urlparse L (normalize_root L href))) seen"] False
      show ?thesis by simp
    qed
  qed
qed

lemma search_loop_length:
  "int (length (fst (search_loop L client sh n qs st))) \<le>
     max (int (length (fst st))) (4 * n - 1) + int (length qs)"
proof (induction qs arbitrary: st)
  case Nil
  show ?case by simp
next
  case (Cons q qs)
  obtain cands seen where st: "st = (cands, seen)" by (cases st)
  define st' where "st' =
       (case client (''https://duckduckgo.com/html/?q='' @ quote_plus L q) of
          Raises e \<Rightarrow> st
        | Returns r \<Rightarrow>
            if status_code r \<noteq> 200 then st
            else scan_anchors L sh n (hrefs_of (parsed_html r)) st)"
  have "int (length (fst (scan_anchors L sh n hrefs st))) \<le> max (int (length (fst st))) (4 * n - 1) + 1"
    for hrefs
    using scan_anchors_length[of L sh n hrefs cands seen] unfolding st by simp
  moreover have "int (length (fst st)) \<le> max (int (length (fst st))) (4 * n - 1) + 1"
    by simp
  ultimately have "int (length (fst st')) \<le> max (int (length (fst st))) (4 * n - 1) + 1"
    unfolding st'_def
    by (cases "client (''https://duckduckgo.com/html/?q='' @ quote_plus L q)") (simp_all del: max.bounded_iff)
  moreover have "search_loop L client sh n (q # qs) st = search_loop L client sh n qs st'"
    unfolding st'_def by (rule search_loop_step)
  ultimately show ?case using Cons.IH[of st'] by (simp del: search_loop.simps)
qed

lemma search_queries_length: "length (search_queries sh b) \<le> 3"
  by (simp add: search_queries_def Let_def split: option.split)

lemma candidates_bound:
  assumes "1 \<le> n"
  shows "int (length (competitor_candidates L client u b n)) \<le> 4 * n + 2"
proof -
  let ?sh = "netloc (urlparse L (normalize_root L u))"
  have "int (length (competitor_candidates L client u b n)) \<le>
          max (int (length (fst (([], {}) :: string list \<times> string set)))) (4 * n - 1) +
          int (length (search_queries ?sh b))"
    unfolding competitor_candidates_def Let_def by (rule search_loop_length)
  with search_queries_length[of ?sh b] assms show ?thesis by simp
qed

lemma search_loop_preserves:
  assumes "\<And>hrefs st. P st \<Longrightarrow> P (scan_anchors L sh n hrefs st)" and "P st"
  shows "P (search_loop L client sh n qs st)"
  using assms(2)
proof (induction qs arbitrary: st)
  case Nil
  then show ?case by simp
next
  case (Cons q qs)
  define st' where "st' =
       (case client (''https://duckduckgo.com/html/?q='' @ quote_plus L q) of
          Raises e \<Rightarrow> st
        | Returns r \<Rightarrow>
            if status_code r \<noteq> 200 then st
            else scan_anchors L sh n (hrefs_of (parsed_html r)) st)"
  have "P st'" unfolding st'_def using Cons.prems assms(1) by (simp split: reply.split)
  then have "P (search_loop L client sh n qs st')" by (rule Cons.IH)
  then show ?case unfolding st'_def search_loop_step .
qed

lemma scan_anchors_hosts:
  "hosts_ok L st \<Longrightarrow> hosts_ok L (scan_anchors L sh n hrefs st)"
proof (induction hrefs arbitrary: st)
  case Nil
  then show ?case by simp
next
  case (Cons href hrefs)
  obtain cands seen where st: "st = (cands, seen)" by (cases st)
  let ?st = "(cands @ [normalize_root L href],
              insert (netloc (urlparse L (normalize_root L href))) seen)"
  show ?case
  proof (cases "\<not> str_startswith href ''http'' \<or> netloc (urlparse L href) = [] \<or>
         netloc (urlparse L href) = sh \<or> netloc (urlparse L (normalize_root L href)) \<in> seen")
    case True
    then have "scan_anchors L sh n (href # hrefs) (cands, seen) = scan_anchors L sh n hrefs (cands, seen)"
      by (simp only: scan_anchors_step if_True)
    with Cons.IH[OF Cons.prems] show ?thesis unfolding st by simp
  next
    case new: False
    then have ok: "hosts_ok L ?st"
      using Cons.prems unfolding st by (auto simp: hosts_ok_def)
    show ?thesis
    proof (cases "4 * n \<le> int (length cands) + 1")
      case True
      with new have "scan_anchors L sh n (href # hrefs) (cands, seen) = ?st"
        by (simp only: scan_anchors_step if_True if_False)
      with ok show ?thesis unfolding st by simp
    next
      case False
      with new have "scan_anchors L sh n (href # hrefs) (cands, seen) = scan_anchors L sh n hrefs ?st"
        by (simp only: scan_anchors_step if_False)
      with Cons.IH[OF ok] show ?thesis unfolding st by simp
    qed
  qed
qed

lemma candidates_distinct_hosts:
  "distinct (map (\<lambda>c. netloc (urlparse L c)) (competitor_candidates L client u b n))"
proof -
  have "hosts_ok L ([], {})" by (simp add: hosts_ok_def)
  with scan_anchors_hosts
  have "hosts_ok L (search_loop L client (netloc (urlparse L (normalize_root L u))) n
                (search_queries (netloc (urlparse L (normalize_root L u))) b) ([], {}))"
    by (rule search_loop_preserves)
  then show ?thesis by (simp add: hosts_ok_def competitor_candidates_def Let_def)
qed

lemma scan_anchors_not_self:
  assumes rt: "\<forall>href. netloc (urlparse L (normalize_root L href)) = netloc (urlparse L href)"
  shows "sh \<notin> set (map (\<lambda>c. netloc (urlparse L c)) (fst st)) \<Longrightarrow>
         sh \<notin> set (map (\<lambda>c. netloc (urlparse L c)) (fst (scan_anchors L sh n hrefs st)))"
proof (induction hrefs arbitrary: st)
  case Nil
  then show ?case by simp
next
  case (Cons href hrefs)
  obtain cands seen where st: "st = (cands, seen)" by (cases st)
  let ?st = "(cands @ [normalize_root L href],
              insert (netloc (urlparse L (normalize_root L href))) seen)"
  show ?case
  proof (cases "\<not> str_startswith href ''http'' \<or> netloc (urlparse L href) = [] \<or>
         netloc (urlparse L href) = sh \<or> netloc (urlparse L (normalize_root L href)) \<in> seen")
    case True
    then have "scan_anchors L sh n (href # hrefs) (cands, seen) = scan_anchors L sh n hrefs (cands, seen)"
      by (simp only: scan_anchors_step if_True)
    with Cons.IH[OF Cons.prems] show ?thesis unfolding st by simp
  next
    case new: False
    then have ok: "sh \<notin> set (map (\<lambda>c. netloc (urlparse L c)) (fst ?st))"
      using Cons.prems rt unfolding st by auto
    show ?thesis
    proof (cases "4 * n \<le> int (length cands) + 1")
      case True
      with new have "scan_anchors L sh n (href # hrefs) (cands, seen) = ?st"
        by (simp only: scan_anchors_step if_True if_False)
      with ok show ?thesis unfolding st by simp
    next
      case False
      with new have "scan_anchors L sh n (href # hrefs) (cands, seen) = scan_anchors L sh n hrefs ?st"
        by (simp only: scan_anchors_step if_False)
      with Cons.IH[OF ok] show ?thesis unfolding st by simp
    qed
  qed
qed

lemma candidates_exclude_origin:
  assumes "\<forall>href. netloc (urlparse L (normalize_root L href)) = netloc (urlparse L href)"
  shows "netloc (urlparse L (normalize_root L u)) \<notin>
           set (map (\<lambda>c. netloc (urlparse L c)) (competitor_candidates L client u b n))"
proof -
  let ?sh = "netloc (urlparse L (normalize_root L u))"
  have "?sh \<notin> set (map (\<lambda>c. netloc (urlparse L c)) (fst (([], {}) :: string list \<times> string set)))"
    by simp
  with scan_anchors_not_self[OF assms, of ?sh]
  have "?sh \<notin> set (map (\<lambda>c. netloc (urlparse L c))
          (fst (search_loop L client ?sh n (search_queries ?sh b) ([], {}))))"
    by (rule search_loop_preserves)
  then show ?thesis by (simp add: competitor_candidates_def Let_def)
qed

text \<open>
  Claim C9 says that the list of candidates never has more than four times the limit
  of entries, has no duplicate hosts and never holds the origin's own host. The last
  two hold (see above). The first fails: with the limit 1 and three pages of search
  results, the list ends with six entries: the \<open>break\<close> at four entries leaves the loop over the anchors of one
  page only, and each later page adds one more entry before its own \<open>break\<close>.
\<close>

theorem candidates_exceed_four_times_limit:
  "competitor_candidates toy_lib crowded_client ''https://shop.example/'' (Some ''Acme'') 1 =
     [''https://a.example/'', ''https://b.example/'', ''https://c.example/'', ''https://d.example/'',
      ''https://e.example/'', ''https://f.example/''] \<and>
   length (competitor_candidates toy_lib crowded_client ''https://shop.example/'' (Some ''Acme'') 1) = 6"
  by code_simp

end
